theory Spec2Isabelle
  imports Complex_Main "HOL-Library.Word"
begin

section \<open>JavaScript values\<close>

text \<open>
  The library under verification is \<^verbatim>\<open>src/lib/jsonata-functions.js\<close>. Its functions work on
  JavaScript values, modelled here as far as the functions look at them.

  A string is a sequence of UTF-16 code units. \<open>js\<close> turns an ASCII literal into such a
  string.
\<close>

type_synonym code_unit = "16 word"
type_synonym jsstring = "code_unit list"

definition js :: "string \<Rightarrow> jsstring" where
  "js s = map of_char s"

text \<open>
  A number is an IEEE double. The model keeps the three special values apart and holds a
  finite number as the real it denotes; rounding and the sign of zero are not modelled.
\<close>

datatype jsnumber = NaN | PosInf | NegInf | Finite real

text \<open>
  A value: the primitives, an object given by its own enumerable properties, and a
  function given by an identity. Symbols, bigints and wrapper objects are not modelled.
\<close>

datatype jsvalue =
    Undefined
  | Null
  | Boolean bool
  | Number jsnumber
  | String jsstring
  | Object "jsstring \<Rightarrow> jsvalue option"
  | Function nat

type_synonym jsobject = "jsstring \<Rightarrow> jsvalue option"

text \<open>An exception is a value of its class with its message.\<close>

datatype error =
    TypeError jsstring
  | Error jsstring
  | SyntaxError jsstring
  | Thrown jsvalue

type_synonym outcome = "error + jsvalue"

text \<open>\<^verbatim>\<open>typeof v\<close>.\<close>

fun typeof :: "jsvalue \<Rightarrow> jsstring" where
  "typeof Undefined = js ''undefined''"
| "typeof Null = js ''object''"
| "typeof (Boolean b) = js ''boolean''"
| "typeof (Number n) = js ''number''"
| "typeof (String s) = js ''string''"
| "typeof (Object ps) = js ''object''"
| "typeof (Function f) = js ''function''"

text \<open>The truth value of \<open>v\<close> in a condition (\<^verbatim>\<open>ToBoolean\<close>).\<close>

fun truthy :: "jsvalue \<Rightarrow> bool" where
  "truthy Undefined = False"
| "truthy Null = False"
| "truthy (Boolean b) = b"
| "truthy (Number NaN) = False"
| "truthy (Number (Finite x)) = (x \<noteq> 0)"
| "truthy (Number n) = True"
| "truthy (String s) = (s \<noteq> [])"
| "truthy (Object ps) = True"
| "truthy (Function f) = True"

text \<open>Reading a property: \<^verbatim>\<open>obj.k\<close> is \<^verbatim>\<open>undefined\<close> when \<open>obj\<close> has no such property.\<close>

definition get_prop :: "jsobject \<Rightarrow> jsstring \<Rightarrow> jsvalue" where
  "get_prop obj k = (case obj k of None \<Rightarrow> Undefined | Some v \<Rightarrow> v)"

text \<open>
  The own enumerable properties that the spread \<^verbatim>\<open>...options\<close> copies: those of an
  object, none for \<^verbatim>\<open>undefined\<close>, \<^verbatim>\<open>null\<close>, a boolean, a number or a function. (The
  registered signatures \<^verbatim>\<open>o?\<close> let the host pass an object or nothing; the indexed
  characters a string would spread are never read.)
\<close>

fun spread :: "jsvalue \<Rightarrow> jsobject" where
  "spread (Object ps) = ps"
| "spread v = Map.empty"

subsection \<open>The engine\<close>

text \<open>
  What the functions use of the JavaScript engine and is not written out here is a
  parameter of the model:
  \<^item> how a number and an object print in a template literal (an object's conversion runs
    its own methods, and can throw);
  \<^item> \<^verbatim>\<open>new RegExp(source, 'gu')\<close>: \<open>None\<close> when the source is refused, else the pattern's
    matcher, which for a string and a start index gives the end index of the match that
    starts there, if there is one.
\<close>

type_synonym matcher = "jsstring \<Rightarrow> nat \<Rightarrow> nat option"

record engine =
  NumberToString :: "jsnumber \<Rightarrow> jsstring"
  ObjectToString :: "jsvalue \<Rightarrow> error + jsstring"
  RegExpCreate :: "jsstring \<Rightarrow> matcher option"

text \<open>\<^verbatim>\<open>`${v}`\<close>: the conversion of a value to a string.\<close>

fun ToString :: "engine \<Rightarrow> jsvalue \<Rightarrow> error + jsstring" where
  "ToString E Undefined = Inr (js ''undefined'')"
| "ToString E Null = Inr (js ''null'')"
| "ToString E (Boolean b) = Inr (if b then js ''true'' else js ''false'')"
| "ToString E (Number n) = Inr (NumberToString E n)"
| "ToString E (String s) = Inr s"
| "ToString E (Object ps) = ObjectToString E (Object ps)"
| "ToString E (Function f) = ObjectToString E (Function f)"

subsection \<open>Code points\<close>

definition is_high_surrogate :: "code_unit \<Rightarrow> bool" where
  "is_high_surrogate c = (0xD800 \<le> c \<and> c \<le> 0xDBFF)"

definition is_low_surrogate :: "code_unit \<Rightarrow> bool" where
  "is_low_surrogate c = (0xDC00 \<le> c \<and> c \<le> 0xDFFF)"

text \<open>
  \<^verbatim>\<open>[...value]\<close>: the string iterator yields one string per code point, a surrogate
  pair as one string of two code units and every other code unit alone.
\<close>

fun codepoints :: "jsstring \<Rightarrow> jsstring list" where
  "codepoints [] = []"
| "codepoints [c] = [[c]]"
| "codepoints (c # d # cs) =
     (if is_high_surrogate c \<and> is_low_surrogate d then [c, d] # codepoints cs
      else [c] # codepoints (d # cs))"

text \<open>
  \<^verbatim>\<open>s.replace(/([\uD800-\uDBFF])([\uDC00-\uDFFF])/g, '\u200D')\<close>: every surrogate pair,
  from the left, becomes the one code unit U+200D.
\<close>

fun replace_surrogate_pairs :: "jsstring \<Rightarrow> jsstring" where
  "replace_surrogate_pairs [] = []"
| "replace_surrogate_pairs [c] = [c]"
| "replace_surrogate_pairs (c # d # cs) =
     (if is_high_surrogate c \<and> is_low_surrogate d then 0x200D # replace_surrogate_pairs cs
      else c # replace_surrogate_pairs (d # cs))"

subsection \<open>Numbers and arrays\<close>

text \<open>
  \<^verbatim>\<open>a <= b\<close> and \<^verbatim>\<open>a - b\<close> on numbers. The difference of two finite numbers is that of the
  reals. It is the difference of the code wherever that real is a double, as it is when a
  count is taken from a length that is at least the count; elsewhere the code rounds,
  and the model does not.
\<close>

fun num_le :: "jsnumber \<Rightarrow> jsnumber \<Rightarrow> bool" where
  "num_le NaN b = False"
| "num_le a NaN = False"
| "num_le NegInf b = True"
| "num_le a PosInf = True"
| "num_le PosInf b = False"
| "num_le a NegInf = False"
| "num_le (Finite x) (Finite y) = (x \<le> y)"

fun num_sub :: "jsnumber \<Rightarrow> jsnumber \<Rightarrow> jsnumber" where
  "num_sub NaN b = NaN"
| "num_sub a NaN = NaN"
| "num_sub PosInf PosInf = NaN"
| "num_sub NegInf NegInf = NaN"
| "num_sub PosInf b = PosInf"
| "num_sub NegInf b = NegInf"
| "num_sub (Finite x) PosInf = NegInf"
| "num_sub (Finite x) NegInf = PosInf"
| "num_sub (Finite x) (Finite y) = Finite (x - y)"

text \<open>The length of an array as a number.\<close>

definition array_length :: "'a list \<Rightarrow> jsnumber" where
  "array_length xs = Finite (of_nat (length xs))"

datatype integer_or_infinity = PlusInfinity | MinusInfinity | Integer int

text \<open>\<^verbatim>\<open>ToIntegerOrInfinity\<close>: a finite number loses its fraction, towards zero.\<close>

fun ToIntegerOrInfinity :: "jsnumber \<Rightarrow> integer_or_infinity" where
  "ToIntegerOrInfinity NaN = Integer 0"
| "ToIntegerOrInfinity PosInf = PlusInfinity"
| "ToIntegerOrInfinity NegInf = MinusInfinity"
| "ToIntegerOrInfinity (Finite x) = Integer (if x < 0 then - \<lfloor>- x\<rfloor> else \<lfloor>x\<rfloor>)"

text \<open>
  \<^verbatim>\<open>xs.slice(0, end)\<close>: a negative end counts back from the end of the array, and the
  result is the elements before the final index.
\<close>

definition slice0 :: "'a list \<Rightarrow> jsnumber \<Rightarrow> 'a list" where
  "slice0 xs end =
     (let len = int (length xs);
          final = (case ToIntegerOrInfinity end of
                     MinusInfinity \<Rightarrow> 0
                   | PlusInfinity \<Rightarrow> len
                   | Integer r \<Rightarrow> if r < 0 then max (len + r) 0 else min r len)
      in take (nat final) xs)"

text \<open>\<^verbatim>\<open>xs.lastIndexOf(x)\<close>: the greatest index that holds \<open>x\<close>, or -1.\<close>

fun lastIndexOf :: "'a list \<Rightarrow> 'a \<Rightarrow> int" where
  "lastIndexOf [] x = - 1"
| "lastIndexOf (y # ys) x =
     (let r = lastIndexOf ys x
      in if r \<noteq> - 1 then r + 1 else if y = x then 0 else - 1)"

text \<open>\<^verbatim>\<open>xs.join('')\<close> on an array of strings.\<close>

definition join :: "jsstring list \<Rightarrow> jsstring" where
  "join xs = concat xs"

section \<open>The libraries and the host\<close>

text \<open>
  Each of the other functions hands its arguments to a library. The libraries are a
  parameter of the model, one field for each call the functions make; a call returns a
  value or throws.
\<close>

record langtag =
  invalid :: bool
  region :: "jsstring option"
  language :: "jsstring option"

record delegates =
  convert :: "jsstring \<Rightarrow> jsobject \<Rightarrow> outcome"
  uuidvalidate :: "jsvalue \<Rightarrow> outcome"
  UuidEncoder_encode :: "jsvalue \<Rightarrow> jsvalue \<Rightarrow> outcome"
  UuidEncoder_decode :: "jsvalue \<Rightarrow> jsvalue \<Rightarrow> outcome"
  LanguageTag :: "jsvalue \<Rightarrow> error + langtag"
  countries :: jsobject
  languagesAll :: jsobject
  URL_href :: "jsvalue \<Rightarrow> outcome"
  urlParse :: "jsvalue \<Rightarrow> outcome"
  JSON_parse_stringify :: "jsvalue \<Rightarrow> outcome"
  path_parse :: "jsvalue \<Rightarrow> outcome"
  momentjs :: "jsvalue list \<Rightarrow> outcome"
  momentjs_duration :: "jsvalue list \<Rightarrow> outcome"
  Mustache_render :: "jsvalue \<Rightarrow> jsvalue \<Rightarrow> outcome"
  foldReplacing :: "jsvalue \<Rightarrow> jsvalue \<Rightarrow> outcome"
  foldMaintaining :: "jsvalue \<Rightarrow> outcome"

text \<open>
  One call \<^verbatim>\<open>expression.registerFunction(name, implementation, signature)\<close>. An
  implementation takes the arguments of a call; its result is \<open>None\<close> when it does not
  return. An argument that the caller leaves out is \<^verbatim>\<open>undefined\<close>.
\<close>

record registration =
  name :: jsstring
  implementation :: "jsvalue list \<Rightarrow> outcome option"
  signature :: jsstring

section \<open>Regular expressions\<close>

text \<open>
  \<^verbatim>\<open>AdvanceStringIndex\<close> for a pattern with the \<^verbatim>\<open>u\<close> flag: the next index, after a whole
  surrogate pair when one starts at \<open>index\<close>.
\<close>

definition AdvanceStringIndex :: "jsstring \<Rightarrow> nat \<Rightarrow> nat" where
  "AdvanceStringIndex S index =
     (if index + 1 \<ge> length S then index + 1
      else if is_high_surrogate (S ! index) \<and> is_low_surrogate (S ! (index + 1)) then index + 2
      else index + 1)"

text \<open>
  \<^verbatim>\<open>separator.exec(S)\<close> on a pattern with the \<^verbatim>\<open>g\<close> flag, the pattern's \<^verbatim>\<open>lastIndex\<close> passed
  in: the search starts at \<open>lastIndex\<close> and moves right until the matcher succeeds. The
  result \<open>Some (index, e)\<close> is a match that starts at \<open>index\<close>, with \<^verbatim>\<open>lastIndex\<close> left at its
  end \<open>e\<close>; \<open>None\<close> is \<^verbatim>\<open>null\<close>.
\<close>

function RegExpBuiltinExec :: "matcher \<Rightarrow> jsstring \<Rightarrow> nat \<Rightarrow> (nat \<times> nat) option" where
  "RegExpBuiltinExec m S lastIndex =
     (if lastIndex > length S then None
      else (case m S lastIndex of
              Some e \<Rightarrow> Some (lastIndex, e)
            | None \<Rightarrow> RegExpBuiltinExec m S (AdvanceStringIndex S lastIndex)))"
  by pat_completeness auto
termination
  by (relation "measure (\<lambda>(m, S, i). Suc (length S) - i)")
     (auto simp: AdvanceStringIndex_def)

declare RegExpBuiltinExec.simps [simp del]

text \<open>
  The loop of \<open>truncate\<close> that keeps the index of the last match:
  \<^verbatim>\<open>do { matched = separator.exec(S); lastMatch = matched ? matched.index : lastMatch; } while (matched);\<close>
  The state of the loop is the pattern's \<^verbatim>\<open>lastIndex\<close> and \<open>lastMatch\<close>. The result is
  \<open>None\<close> when the loop runs forever.
\<close>

partial_function (option) last_match_loop :: "matcher \<Rightarrow> jsstring \<Rightarrow> nat \<Rightarrow> int \<Rightarrow> int option" where
  "last_match_loop separator S lastIndex lastMatch =
     (case RegExpBuiltinExec separator S lastIndex of
        None \<Rightarrow> Some lastMatch
      | Some (index, e) \<Rightarrow> last_match_loop separator S e (int index))"

section \<open>The function truncate\<close>

definition defaultOptions :: jsobject where
  "defaultOptions =
     [js ''length'' \<mapsto> Number (Finite 30),
      js ''omission'' \<mapsto> String (js ''...''),
      js ''separator'' \<mapsto> Undefined]"

text \<open>\<^verbatim>\<open>{ ...defaultOptions, ...options }\<close>: the properties of \<open>options\<close> win.\<close>

definition localOptions :: "jsvalue \<Rightarrow> jsobject" where
  "localOptions options = defaultOptions ++ spread options"

text \<open>
  The error of a failed check of the options:
  \<^verbatim>\<open>throw new TypeError(`<expected> Received options.<field>=${v} Type: ${typeof v}`)\<close>,
  where \<open>received\<close> is the text before the value. The conversion of \<open>v\<close> comes first, and
  its own error wins.
\<close>

definition option_error :: "engine \<Rightarrow> jsstring \<Rightarrow> jsvalue \<Rightarrow> error" where
  "option_error E received v =
     (case ToString E v of
        Inl e \<Rightarrow> e
      | Inr t \<Rightarrow> TypeError (received @ t @ js '' Type: '' @ typeof v))"

text \<open>\<^verbatim>\<open>_.isString(v)\<close> of lodash, on the values of the model.\<close>

definition isString :: "jsvalue \<Rightarrow> bool" where
  "isString v = (typeof v = js ''string'')"

text \<open>
  The search with \<^verbatim>\<open>wordbreakregex\<close>: the index of the last match in \<open>S\<close>, or -1, or the
  error that replaces every failure of the pattern. It stays -1 when the option is not
  a non-empty string.
\<close>

definition regex_search :: "engine \<Rightarrow> jsvalue \<Rightarrow> jsstring \<Rightarrow> (error + int) option" where
  "regex_search E wordbreakregex S =
     (case wordbreakregex of
        String source \<Rightarrow>
          if truthy wordbreakregex \<and> isString wordbreakregex then
            (case RegExpCreate E source of
               None \<Rightarrow> Some (Inl (Error (js ''Error Processing workdbreakregex.'')))
             | Some separator \<Rightarrow> map_option Inr (last_match_loop separator S 0 (- 1)))
          else Some (Inr (- 1))
      | _ \<Rightarrow> Some (Inr (- 1)))"

text \<open>
  The search with \<^verbatim>\<open>wordbreak\<close>, made when the option is a non-empty string and the
  pattern found nothing: the last element of the array \<open>firstSlice\<close> equal to it.
\<close>

definition wordbreak_search :: "jsvalue \<Rightarrow> jsstring list \<Rightarrow> int \<Rightarrow> int" where
  "wordbreak_search wordbreak firstSlice lastMatch =
     (case wordbreak of
        String separator \<Rightarrow>
          if truthy wordbreak \<and> isString wordbreak \<and> lastMatch = - 1
          then lastIndexOf firstSlice separator
          else lastMatch
      | _ \<Rightarrow> lastMatch)"

text \<open>
  \<open>truncate E val options\<close> is \<open>None\<close> when the call does not return, \<open>Some (Inl e)\<close>
  when it throws \<open>e\<close> and \<open>Some (Inr v)\<close> when it returns \<open>v\<close>. The registered signature
  \<^verbatim>\<open><s?o?:s>\<close> has the host pass a string or nothing as \<open>val\<close>; on the other values of
  the model the spread \<^verbatim>\<open>[...value]\<close> throws.
\<close>

definition truncate :: "engine \<Rightarrow> jsvalue \<Rightarrow> jsvalue \<Rightarrow> outcome option" where
  "truncate E val options =
     (if typeof val = js ''undefined'' then Some (Inr Undefined)
      else
        let len = get_prop (localOptions options) (js ''length'');
            omission = get_prop (localOptions options) (js ''omission'');
            wordbreak = get_prop (localOptions options) (js ''wordbreak'');
            wordbreakregex = get_prop (localOptions options) (js ''wordbreakregex'')
        in
        if typeof len \<noteq> js ''number'' then
          Some (Inl (option_error E (js ''Expected a number. Received options.length='') len))
        else if typeof omission \<noteq> js ''string'' then
          Some (Inl (option_error E (js ''Expected a string. Received options.omission='') omission))
        else if truthy wordbreak \<and> typeof wordbreak \<noteq> js ''string'' then
          Some (Inl (option_error E (js ''Expected a string. Received options.wordbreak='') wordbreak))
        else if truthy wordbreakregex \<and> typeof wordbreakregex \<noteq> js ''string'' then
          Some (Inl (option_error E
            (js ''Expected a string. Received options.wordbreakregex='') wordbreakregex))
        else
          (case (val, len, omission) of
             (String s, Number n, String om) \<Rightarrow>
               let unicodeArray = codepoints s in
               if num_le (array_length unicodeArray) n then Some (Inr val)
               else
                 let endslice = num_sub n (array_length (codepoints om));
                     firstSlice = slice0 unicodeArray endslice;
                     firstSliceString = join firstSlice;
                     firstSliceStringNormalised = replace_surrogate_pairs firstSliceString
                 in
                 (case regex_search E wordbreakregex firstSliceStringNormalised of
                    None \<Rightarrow> None
                  | Some (Inl e) \<Rightarrow> Some (Inl e)
                  | Some (Inr lastMatch0) \<Rightarrow>
                      let lastMatch = wordbreak_search wordbreak firstSlice lastMatch0;
                          firstSlice' =
                            (if lastMatch \<noteq> - 1
                             then slice0 unicodeArray (Finite (of_int lastMatch))
                             else firstSlice)
                      in Some (Inr (String (join firstSlice' @ om))))
           | _ \<Rightarrow> Some (Inl (TypeError (js ''value is not iterable'')))))"

text \<open>
  The four checks of \<open>truncate\<close> on the merged options all pass: the length is a number,
  the omission is a string, and \<^verbatim>\<open>wordbreak\<close> and \<^verbatim>\<open>wordbreakregex\<close> are strings when they
  are truthy.
\<close>

definition options_pass_validation :: "jsvalue \<Rightarrow> bool" where
  "options_pass_validation options =
     (typeof (get_prop (localOptions options) (js ''length'')) = js ''number'' \<and>
      typeof (get_prop (localOptions options) (js ''omission'')) = js ''string'' \<and>
      (truthy (get_prop (localOptions options) (js ''wordbreak'')) \<longrightarrow>
         typeof (get_prop (localOptions options) (js ''wordbreak'')) = js ''string'') \<and>
      (truthy (get_prop (localOptions options) (js ''wordbreakregex'')) \<longrightarrow>
         typeof (get_prop (localOptions options) (js ''wordbreakregex'')) = js ''string''))"

text \<open>
  What \<open>truncate\<close> returns for the word break index \<open>lastMatch\<close> it has settled on: the code
  points before it, or the whole of \<open>firstSlice\<close> when it is -1, and then the omission.
\<close>

definition truncated_at :: "jsstring \<Rightarrow> jsnumber \<Rightarrow> jsstring \<Rightarrow> int \<Rightarrow> jsstring" where
  "truncated_at s n om lastMatch =
     join (if lastMatch \<noteq> - 1 then slice0 (codepoints s) (Finite (of_int lastMatch))
           else slice0 (codepoints s) (num_sub n (array_length (codepoints om)))) @ om"

text \<open>The string that the search with \<^verbatim>\<open>wordbreakregex\<close> runs on, for the input \<open>s\<close>.\<close>

definition normalised_prefix :: "jsstring \<Rightarrow> jsnumber \<Rightarrow> jsstring \<Rightarrow> jsstring" where
  "normalised_prefix s n om =
     replace_surrogate_pairs
       (join (slice0 (codepoints s) (num_sub n (array_length (codepoints om)))))"

section \<open>The other functions\<close>

text \<open>\<^verbatim>\<open>s.trim()\<close>: white space and line terminators go from both ends.\<close>

definition is_white_space :: "code_unit \<Rightarrow> bool" where
  "is_white_space c =
     (c \<in> {0x09, 0x0A, 0x0B, 0x0C, 0x0D, 0x20, 0xA0, 0x1680, 0x2028, 0x2029, 0x202F,
            0x205F, 0x3000, 0xFEFF}
      \<or> (0x2000 \<le> c \<and> c \<le> 0x200A))"

definition trim :: "jsstring \<Rightarrow> jsstring" where
  "trim s = rev (dropWhile is_white_space (rev (dropWhile is_white_space s)))"

definition htmltotext :: "delegates \<Rightarrow> jsvalue \<Rightarrow> jsvalue \<Rightarrow> outcome" where
  "htmltotext D val options =
     (if typeof val = js ''undefined'' then Inr Undefined
      else
        let defaultOptions =
              [js ''noLinkBrackets'' \<mapsto> Boolean False,
               js ''wordwrap'' \<mapsto> Null,
               js ''whitespaceCharacters'' \<mapsto>
                 String [0x20, 0x09, 0x0D, 0x0A, 0x0C, 0x200B, 0xA0]];
            localOptions = defaultOptions ++ spread options
        in (case val of
              String s \<Rightarrow> convert D (trim s) localOptions
            | _ \<Rightarrow> Inl (TypeError (js ''value.trim is not a function''))))"

definition validBasex :: "jsstring list" where
  "validBasex =
     [js ''base2'', js ''base10'', js ''base16'', js ''base32'', js ''base36'', js ''base58'',
      js ''base62'', js ''base64'', js ''base64url'']"

text \<open>\<^verbatim>\<open>xs.join(',')\<close> on an array of strings.\<close>

fun join_comma :: "jsstring list \<Rightarrow> jsstring" where
  "join_comma [] = []"
| "join_comma [x] = x"
| "join_comma (x # y # ys) = x @ js '','' @ join_comma (y # ys)"

text \<open>\<^verbatim>\<open>validBasex.includes(base)\<close>: \<open>base\<close> is one of the strings.\<close>

definition includes_base :: "jsvalue \<Rightarrow> bool" where
  "includes_base base = (case base of String b \<Rightarrow> b \<in> set validBasex | _ \<Rightarrow> False)"

definition invalid_basex :: error where
  "invalid_basex = Error (js ''Invalid basex. Valid values: '' @ join_comma validBasex)"

text \<open>The default of a parameter, \<^verbatim>\<open>(value, base = 'base36')\<close>, stands in for \<^verbatim>\<open>undefined\<close>.\<close>

definition default_base :: "jsvalue \<Rightarrow> jsvalue" where
  "default_base base = (case base of Undefined \<Rightarrow> String (js ''base36'') | _ \<Rightarrow> base)"

definition shortenUuid :: "delegates \<Rightarrow> jsvalue \<Rightarrow> jsvalue \<Rightarrow> outcome" where
  "shortenUuid D val base0 =
     (let base = default_base base0 in
      if typeof val = js ''undefined'' then Inr Undefined
      else (case uuidvalidate D val of
              Inl e \<Rightarrow> Inl e
            | Inr ok \<Rightarrow>
                if \<not> truthy ok then Inl (Error (js ''Invalid UUID''))
                else if \<not> includes_base base then Inl invalid_basex
                else UuidEncoder_encode D base val))"

definition encodeUuid :: "delegates \<Rightarrow> jsvalue \<Rightarrow> jsvalue \<Rightarrow> outcome" where
  "encodeUuid D val base0 = (let base = default_base base0 in shortenUuid D val base)"

definition unshortenUuid :: "delegates \<Rightarrow> jsvalue \<Rightarrow> jsvalue \<Rightarrow> outcome" where
  "unshortenUuid D val base0 =
     (let base = default_base base0 in
      if typeof val = js ''undefined'' then Inr Undefined
      else if \<not> includes_base base then Inl invalid_basex
      else
        let result = UuidEncoder_decode D base val
        in result)"

definition decodeUuid :: "delegates \<Rightarrow> jsvalue \<Rightarrow> jsvalue \<Rightarrow> outcome" where
  "decodeUuid D val base0 = (let base = default_base base0 in unshortenUuid D val base)"

text \<open>A property read with a key that may be \<^verbatim>\<open>undefined\<close>: the key is then that word.\<close>

definition key_of :: "jsstring option \<Rightarrow> jsstring" where
  "key_of k = (case k of None \<Rightarrow> js ''undefined'' | Some s \<Rightarrow> s)"

definition languageInfo :: "engine \<Rightarrow> delegates \<Rightarrow> jsvalue \<Rightarrow> outcome" where
  "languageInfo E D val =
     (if typeof val = js ''undefined'' then Inr Undefined
      else (case LanguageTag D val of
              Inl e \<Rightarrow> Inl e
            | Inr langTag \<Rightarrow>
                if invalid langTag then
                  (case ToString E val of
                     Inl e \<Rightarrow> Inl e
                   | Inr t \<Rightarrow> Inl (Error (js ''Invalid RFC5646 Tag. Value: '' @ t)))
                else
                  Inr (Object
                    [js ''rfc5646'' \<mapsto> val,
                     js ''region'' \<mapsto>
                       (case region langTag of
                          None \<Rightarrow> Null
                        | Some r \<Rightarrow> if r \<noteq> [] then get_prop (countries D) r else Null),
                     js ''language'' \<mapsto> get_prop (languagesAll D) (key_of (language langTag))])))"

text \<open>\<open>parseUrl\<close>: the \<^verbatim>\<open>catch\<close> replaces every error of the three calls in the \<^verbatim>\<open>try\<close>.\<close>

definition parseUrl :: "delegates \<Rightarrow> jsvalue \<Rightarrow> outcome" where
  "parseUrl D val =
     (if typeof val = js ''undefined'' then Inr Undefined
      else (case URL_href D val of
              Inl err \<Rightarrow> Inl (Error (js ''Invalid URL''))
            | Inr href \<Rightarrow>
                (case urlParse D href of
                   Inl err \<Rightarrow> Inl (Error (js ''Invalid URL''))
                 | Inr parsed \<Rightarrow>
                     (case JSON_parse_stringify D parsed of
                        Inl err \<Rightarrow> Inl (Error (js ''Invalid URL''))
                      | Inr r \<Rightarrow> Inr r))))"

text \<open>One of the three calls in the \<^verbatim>\<open>try\<close> of \<open>parseUrl\<close> throws.\<close>

definition url_delegates_fail :: "delegates \<Rightarrow> jsvalue \<Rightarrow> bool" where
  "url_delegates_fail D val =
     (case URL_href D val of
        Inl err \<Rightarrow> True
      | Inr href \<Rightarrow>
          (case urlParse D href of
             Inl err \<Rightarrow> True
           | Inr parsed \<Rightarrow>
               (case JSON_parse_stringify D parsed of Inl err \<Rightarrow> True | Inr r \<Rightarrow> False)))"

definition parsePath :: "delegates \<Rightarrow> jsvalue \<Rightarrow> outcome" where
  "parsePath D val =
     (if typeof val = js ''undefined'' then Inr Undefined
      else (case path_parse D val of
              Inl e \<Rightarrow> Inl e
            | Inr parsed \<Rightarrow> JSON_parse_stringify D parsed))"

definition moment :: "delegates \<Rightarrow> jsvalue list \<Rightarrow> outcome" where
  "moment D args = momentjs D args"

definition momentDuration :: "delegates \<Rightarrow> jsvalue list \<Rightarrow> outcome" where
  "momentDuration D args = momentjs_duration D args"

definition mustache :: "delegates \<Rightarrow> jsvalue \<Rightarrow> jsvalue \<Rightarrow> outcome" where
  "mustache D val template =
     (if typeof val = js ''undefined'' then Inr Undefined
      else if typeof template = js ''undefined'' then Inr val
      else Mustache_render D template val)"

definition unicodeToASCII :: "delegates \<Rightarrow> jsvalue \<Rightarrow> jsvalue \<Rightarrow> outcome" where
  "unicodeToASCII D val options =
     (if typeof val = js ''undefined'' then Inr Undefined
      else
        let defaultOptions = [js ''replacement'' \<mapsto> Undefined];
            localOptions = defaultOptions ++ spread options;
            replacement = get_prop localOptions (js ''replacement'')
        in (case replacement of
              Undefined \<Rightarrow> foldMaintaining D val
            | _ \<Rightarrow> foldReplacing D val replacement))"

section \<open>Registration\<close>

text \<open>The argument at a position of a call.\<close>

definition arg :: "jsvalue list \<Rightarrow> nat \<Rightarrow> jsvalue" where
  "arg args i = (if i < length args then args ! i else Undefined)"

text \<open>
  What \<open>registerWithJSONATA\<close> is called with: \<^verbatim>\<open>undefined\<close>, \<^verbatim>\<open>null\<close>, or an object with a
  state of the host's own and its property \<^verbatim>\<open>registerFunction\<close>. The property is absent
  (\<^verbatim>\<open>undefined\<close>), or a value that cannot be called, or the capability of the host, which
  binds a function in the state or throws.
\<close>

datatype 'h capability =
    Absent
  | NotCallable
  | Callable "registration \<Rightarrow> 'h \<Rightarrow> error + 'h"

datatype 'h expression =
    UndefinedExpression
  | NullExpression
  | Expression "'h capability" 'h

text \<open>The calls in the order of the source; a call that throws ends the run.\<close>

fun register_each :: "(registration \<Rightarrow> 'h \<Rightarrow> error + 'h) \<Rightarrow> registration list \<Rightarrow> 'h \<Rightarrow> error + 'h" where
  "register_each registerFunction [] h = Inr h"
| "register_each registerFunction (r # rs) h =
     (case registerFunction r h of
        Inl e \<Rightarrow> Inl e
      | Inr h' \<Rightarrow> register_each registerFunction rs h')"

definition registrations :: "engine \<Rightarrow> delegates \<Rightarrow> registration list" where
  "registrations E D =
     [\<lparr>name = js ''htmltotext'',
       implementation = (\<lambda>args. Some (htmltotext D (arg args 0) (arg args 1))),
       signature = js ''<s?o?:s>''\<rparr>,
      \<lparr>name = js ''shortenUuid'',
       implementation = (\<lambda>args. Some (shortenUuid D (arg args 0) (arg args 1))),
       signature = js ''<s?s?:s>''\<rparr>,
      \<lparr>name = js ''unshortenUuid'',
       implementation = (\<lambda>args. Some (unshortenUuid D (arg args 0) (arg args 1))),
       signature = js ''<s?s?:s>''\<rparr>,
      \<lparr>name = js ''encodeUuid'',
       implementation = (\<lambda>args. Some (encodeUuid D (arg args 0) (arg args 1))),
       signature = js ''<s?s?:s>''\<rparr>,
      \<lparr>name = js ''decodeUuid'',
       implementation = (\<lambda>args. Some (decodeUuid D (arg args 0) (arg args 1))),
       signature = js ''<s?s?:s>''\<rparr>,
      \<lparr>name = js ''truncate'',
       implementation = (\<lambda>args. truncate E (arg args 0) (arg args 1)),
       signature = js ''<s?o?:s>''\<rparr>,
      \<lparr>name = js ''languageInfo'',
       implementation = (\<lambda>args. Some (languageInfo E D (arg args 0))),
       signature = js ''<s?:o>''\<rparr>,
      \<lparr>name = js ''parseUrl'',
       implementation = (\<lambda>args. Some (parseUrl D (arg args 0))),
       signature = js ''<s?:o>''\<rparr>,
      \<lparr>name = js ''parsePath'',
       implementation = (\<lambda>args. Some (parsePath D (arg args 0))),
       signature = js ''<s?:o>''\<rparr>,
      \<lparr>name = js ''moment'',
       implementation = (\<lambda>args. Some (moment D args)),
       signature = js ''<(sna)?(sa)?(sb)?b?:o>''\<rparr>,
      \<lparr>name = js ''momentDuration'',
       implementation = (\<lambda>args. Some (momentDuration D args)),
       signature = js ''<(sno)?s?:o>''\<rparr>,
      \<lparr>name = js ''mustache'',
       implementation = (\<lambda>args. Some (mustache D (arg args 0) (arg args 1))),
       signature = js ''<o?s?:s>''\<rparr>,
      \<lparr>name = js ''unicodeToASCII'',
       implementation = (\<lambda>args. Some (unicodeToASCII D (arg args 0) (arg args 1))),
       signature = js ''<s?o?:s>''\<rparr>]"

text \<open>
  \<open>registerWithJSONATA\<close> returns the host's state after the calls, or throws. The guard
  reads \<^verbatim>\<open>expression.registerFunction\<close>, which throws on \<^verbatim>\<open>null\<close>; a property that is there
  and cannot be called passes the guard and fails at the first call. (When a call of
  the host throws, the functions bound before it stay bound; the model does not return
  that state.)
\<close>

definition registerWithJSONATA :: "engine \<Rightarrow> delegates \<Rightarrow> 'h expression \<Rightarrow> error + 'h" where
  "registerWithJSONATA E D expression =
     (case expression of
        UndefinedExpression \<Rightarrow> Inl (TypeError (js ''Invalid JSONata Expression''))
      | NullExpression \<Rightarrow> Inl (TypeError (js ''Cannot read properties of null''))
      | Expression Absent h \<Rightarrow> Inl (TypeError (js ''Invalid JSONata Expression''))
      | Expression NotCallable h \<Rightarrow>
          Inl (TypeError (js ''expression.registerFunction is not a function''))
      | Expression (Callable registerFunction) h \<Rightarrow>
          register_each registerFunction (registrations E D) h)"

section \<open>An engine for the examples\<close>

text \<open>
  The theorems below hold for every engine. To run the model on an input, the examples
  use an engine that knows two patterns, the one space and \<^verbatim>\<open>b*\<close>, and refuses every
  other source. It prints an integer in decimal digits (and of another finite number
  the integer part: the examples print integers only).
\<close>

definition literal_matcher :: "code_unit \<Rightarrow> matcher" where
  "literal_matcher c S i = (if i < length S \<and> S ! i = c then Some (Suc i) else None)"

definition star_matcher :: "code_unit \<Rightarrow> matcher" where
  "star_matcher c S i = Some (i + length (takeWhile (\<lambda>x. x = c) (drop i S)))"

definition example_RegExpCreate :: "jsstring \<Rightarrow> matcher option" where
  "example_RegExpCreate source =
     (if source = js '' '' then Some (literal_matcher 0x20)
      else if source = js ''b*'' then Some (star_matcher 0x62)
      else None)"

fun digits :: "nat \<Rightarrow> jsstring" where
  "digits n = (if n < 10 then [0x30 + of_nat n] else digits (n div 10) @ [0x30 + of_nat (n mod 10)])"

declare digits.simps [simp del]

definition example_NumberToString :: "jsnumber \<Rightarrow> jsstring" where
  "example_NumberToString n =
     (case n of
        NaN \<Rightarrow> js ''NaN''
      | PosInf \<Rightarrow> js ''Infinity''
      | NegInf \<Rightarrow> js ''-Infinity''
      | Finite x \<Rightarrow> (if x < 0 then js ''-'' @ digits (nat \<lfloor>- x\<rfloor>) else digits (nat \<lfloor>x\<rfloor>)))"

text \<open>
  An object without a \<^verbatim>\<open>toString\<close> of its own prints as a plain object does. The examples
  give an object a \<^verbatim>\<open>toString\<close> only as a value that cannot be called, with no \<^verbatim>\<open>valueOf\<close>
  of its own: the conversion of such an object throws.
\<close>

definition example_ObjectToString :: "jsvalue \<Rightarrow> error + jsstring" where
  "example_ObjectToString v =
     (case v of
        Object ps \<Rightarrow>
          (case ps (js ''toString'') of
             None \<Rightarrow> Inr (js ''[object Object]'')
           | Some m \<Rightarrow> Inl (TypeError (js ''Cannot convert object to primitive value'')))
      | _ \<Rightarrow> Inr (js ''function () { [native code] }''))"

definition example_engine :: engine where
  "example_engine =
     \<lparr>NumberToString = example_NumberToString,
      ObjectToString = example_ObjectToString,
      RegExpCreate = example_RegExpCreate\<rparr>"

section \<open>Delegates and a host for the examples\<close>

text \<open>
  Libraries that throw on every call: a function that returns under them has called
  none of them.
\<close>

definition refused :: error where
  "refused = Error (js ''delegate called'')"

definition throwing_delegates :: delegates where
  "throwing_delegates =
     \<lparr>convert = (\<lambda>html options. Inl refused),
      uuidvalidate = (\<lambda>v. Inl refused),
      UuidEncoder_encode = (\<lambda>base v. Inl refused),
      UuidEncoder_decode = (\<lambda>base v. Inl refused),
      LanguageTag = (\<lambda>v. Inl refused),
      countries = Map.empty,
      languagesAll = Map.empty,
      URL_href = (\<lambda>v. Inl refused),
      urlParse = (\<lambda>v. Inl refused),
      JSON_parse_stringify = (\<lambda>v. Inl refused),
      path_parse = (\<lambda>v. Inl refused),
      momentjs = (\<lambda>args. Inl refused),
      momentjs_duration = (\<lambda>args. Inl refused),
      Mustache_render = (\<lambda>template v. Inl refused),
      foldReplacing = (\<lambda>v replacement. Inl refused),
      foldMaintaining = (\<lambda>v. Inl refused)\<rparr>"

text \<open>A parser of language tags that marks every tag invalid.\<close>

definition rejecting_delegates :: delegates where
  "rejecting_delegates =
     throwing_delegates
       \<lparr>LanguageTag := (\<lambda>v. Inr \<lparr>invalid = True, region = None, language = None\<rparr>)\<rparr>"

text \<open>A host that keeps the list of the registrations made, in order.\<close>

definition recording_host :: "registration list expression" where
  "recording_host = Expression (Callable (\<lambda>r h. Inr (h @ [r]))) []"

section \<open>Facts about strings, code points and the match loop\<close>

lemma of_char_word_eq_iff: "((of_char c :: 16 word) = of_char d) = (c = d)"
proof
  assume h: "(of_char c :: 16 word) = of_char d"
  have "\<And>x. unat (of_char x :: 16 word) = of_char x"
  proof -
    fix x
    have "(of_char x :: 16 word) = of_nat (of_char x)" by (simp add: of_nat_of_char)
    moreover have "(of_char x :: nat) < 2 ^ 16"
    proof -
      have "(of_char x :: nat) < 256" by (rule nat_of_char_less_256)
      also have "(256 :: nat) < 2 ^ 16" by simp
      finally show ?thesis .
    qed
    ultimately show "unat (of_char x :: 16 word) = of_char x"
      by (simp add: of_nat_inverse)
  qed
  with h have "(of_char c :: nat) = of_char d" by metis
  then show "c = d" by simp
qed simp

lemma js_eq_iff [simp]: "(js a = js b) = (a = b)"
  unfolding js_def
  by (rule inj_map_eq_map) (simp add: inj_on_def of_char_word_eq_iff)

lemma codepoints_Cons_bounds:
  "length (codepoints xs) \<le> length (codepoints (x # xs)) \<and>
   length (codepoints (x # xs)) \<le> Suc (length (codepoints xs))"
proof (induction xs arbitrary: x)
  case Nil
  show ?case by simp
next
  case (Cons y ys)
  from Cons.IH [of y] show ?case by simp
qed

lemma codepoints_append_le:
  "length (codepoints (a @ b)) \<le> length (codepoints a) + length (codepoints b)"
proof (induction a rule: codepoints.induct)
  case 1
  show ?case by simp
next
  case (2 c)
  from codepoints_Cons_bounds [of b c] show ?case by simp
next
  case (3 c d cs)
  then show ?case by simp
qed

lemma codepoints_element:
  "x \<in> set (codepoints s) \<Longrightarrow> length (codepoints x) = 1"
  by (induction s rule: codepoints.induct) (auto split: if_splits)

lemma codepoints_concat_le:
  "(\<And>x. x \<in> set xs \<Longrightarrow> length (codepoints x) = 1) \<Longrightarrow>
   length (codepoints (concat xs)) \<le> length xs"
proof (induction xs)
  case Nil
  show ?case by simp
next
  case (Cons x xs)
  have "length (codepoints (x @ concat xs)) \<le> length (codepoints x) + length (codepoints (concat xs))"
    by (rule codepoints_append_le)
  moreover have "length (codepoints x) = 1" using Cons.prems by simp
  moreover have "length (codepoints (concat xs)) \<le> length xs" using Cons by simp
  ultimately show ?case by simp
qed

lemma length_replace_surrogate_pairs:
  "length (replace_surrogate_pairs s) = length (codepoints s)"
  by (induction s rule: codepoints.induct) auto

lemma lastIndexOf_bounds: "- 1 \<le> lastIndexOf xs x \<and> lastIndexOf xs x < int (length xs)"
  by (induction xs) (auto simp: Let_def)

lemma RegExpBuiltinExec_Some:
  "RegExpBuiltinExec m S i = Some (idx, e) \<Longrightarrow> i \<le> idx \<and> idx \<le> length S \<and> m S idx = Some e"
proof (induction m S i rule: RegExpBuiltinExec.induct)
  case (1 m S i)
  show ?case
  proof (cases "m S i")
    case None
    with "1.prems" have gt: "\<not> length S < i" and rec: "RegExpBuiltinExec m S (AdvanceStringIndex S i) = Some (idx, e)"
      by (auto simp: RegExpBuiltinExec.simps [of m S i] split: if_splits)
    from "1.IH" [OF gt None rec] have "AdvanceStringIndex S i \<le> idx \<and> idx \<le> length S \<and> m S idx = Some e" .
    moreover have "i \<le> AdvanceStringIndex S i" by (simp add: AdvanceStringIndex_def)
    ultimately show ?thesis by simp
  next
    case (Some e')
    with "1.prems" show ?thesis
      by (auto simp: RegExpBuiltinExec.simps [of m S i] split: if_splits)
  qed
qed

lemma last_match_loop_bounds:
  assumes "last_match_loop m S i lm = Some r"
  shows "- 1 \<le> lm \<longrightarrow> lm \<le> int (length S) \<longrightarrow> - 1 \<le> r \<and> r \<le> int (length S)"
  using assms
proof (induction m S i lm r rule: last_match_loop.raw_induct [rotated 1, consumes 1])
  case (1 f m S i lm r)
  show ?case
  proof (cases "RegExpBuiltinExec m S i")
    case None
    with "1.hyps" show ?thesis by simp
  next
    case (Some p)
    obtain idx e where p: "p = (idx, e)" by (cases p)
    from RegExpBuiltinExec_Some [of m S i idx e] Some p have "idx \<le> length S" by simp
    moreover from "1.hyps" Some p have "f m S e (int idx) = Some r" by simp
    ultimately show ?thesis using "1.IH" [of m S e "int idx" r] by simp
  qed
qed

section \<open>The checks of truncate\<close>

lemma typeof_number: "(typeof v = js ''number'') = (\<exists>n. v = Number n)"
  by (cases v) simp_all

lemma typeof_string: "(typeof v = js ''string'') = (\<exists>t. v = String t)"
  by (cases v) simp_all

lemma typeof_undefined: "(typeof v = js ''undefined'') = (v = Undefined)"
  by (cases v) simp_all

lemma regex_search_not_string:
  "\<not> truthy w \<or> typeof w \<noteq> js ''string'' \<Longrightarrow> regex_search E w S = Some (Inr (- 1))"
  by (cases w) (auto simp: regex_search_def isString_def)

lemma truncate_checked:
  assumes "options_pass_validation options"
    and "get_prop (localOptions options) (js ''length'') = Number n"
    and "get_prop (localOptions options) (js ''omission'') = String om"
  shows "truncate E (String s) options =
     (if num_le (array_length (codepoints s)) n then Some (Inr (String s))
      else (case regex_search E (get_prop (localOptions options) (js ''wordbreakregex''))
                  (normalised_prefix s n om) of
              None \<Rightarrow> None
            | Some (Inl e) \<Rightarrow> Some (Inl e)
            | Some (Inr lastMatch0) \<Rightarrow>
                Some (Inr (String (truncated_at s n om
                  (wordbreak_search (get_prop (localOptions options) (js ''wordbreak''))
                     (slice0 (codepoints s) (num_sub n (array_length (codepoints om))))
                     lastMatch0))))))"
  using assms
  by (auto simp: truncate_def options_pass_validation_def typeof_undefined Let_def
      truncated_at_def normalised_prefix_def split: option.splits sum.splits)

section \<open>Bounds of the slices and the searches\<close>

lemma slice0_nonneg: "0 \<le> x \<Longrightarrow> slice0 xs (Finite x) = take (nat \<lfloor>x\<rfloor>) xs"
  by (simp add: slice0_def Let_def min_def)

lemma slice0_of_int: "0 \<le> i \<Longrightarrow> slice0 xs (Finite (of_int i)) = take (nat i) xs"
  using slice0_nonneg [of "of_int i" xs] by simp

lemma codepoints_join_take_le:
  "length (codepoints (join (take j (codepoints s)))) \<le> j"
proof -
  have "length (codepoints (concat (take j (codepoints s)))) \<le> length (take j (codepoints s))"
  proof (rule codepoints_concat_le)
    fix x
    assume "x \<in> set (take j (codepoints s))"
    then have "x \<in> set (codepoints s)" by (rule in_set_takeD)
    then show "length (codepoints x) = 1" by (rule codepoints_element)
  qed
  then show ?thesis by (simp add: join_def)
qed

lemma regex_search_bounds:
  assumes "regex_search E w S = Some (Inr lm)"
  shows "- 1 \<le> lm \<and> lm \<le> int (length S)"
proof (cases "\<exists>src m. w = String src \<and> src \<noteq> [] \<and> RegExpCreate E src = Some m")
  case True
  then obtain src m where w: "w = String src" "src \<noteq> []" "RegExpCreate E src = Some m" by blast
  with assms have "last_match_loop m S 0 (- 1) = Some lm"
    by (auto simp: regex_search_def isString_def)
  from last_match_loop_bounds [OF this] show ?thesis by simp
next
  case False
  with assms have "lm = - 1"
    by (cases w) (auto simp: regex_search_def isString_def split: if_splits option.splits)
  then show ?thesis by simp
qed

lemma wordbreak_search_bounds:
  assumes "- 1 \<le> lm0" and "lm0 \<le> b" and "int (length xs) \<le> b"
  shows "- 1 \<le> wordbreak_search w xs lm0 \<and> wordbreak_search w xs lm0 \<le> b"
  using assms lastIndexOf_bounds [of xs]
  by (cases w) (auto simp: wordbreak_search_def intro: order_trans less_imp_le)

section \<open>The length of a truncated string\<close>

lemma truncated_at_bound:
  assumes k: "real (length (codepoints om)) \<le> l"
    and lm: "- 1 \<le> lm" "lm \<le> \<lfloor>l - real (length (codepoints om))\<rfloor>"
  shows "real (length (codepoints (truncated_at s (Finite l) om lm))) \<le> l"
proof -
  define k where "k = length (codepoints om)"
  define j where "j = nat \<lfloor>l - real k\<rfloor>"
  have nonneg: "0 \<le> l - real k" using k by (simp add: k_def)
  have j: "real j \<le> l - real k"
    using nonneg by (simp add: j_def)
  obtain i where i: "i \<le> j"
    and t: "truncated_at s (Finite l) om lm = join (take i (codepoints s)) @ om"
  proof (cases "lm = - 1")
    case True
    then have "truncated_at s (Finite l) om lm = join (take j (codepoints s)) @ om"
      using nonneg by (simp add: truncated_at_def array_length_def slice0_nonneg j_def k_def)
    then show ?thesis using that [of j] by simp
  next
    case False
    with lm have "0 \<le> lm" by simp
    with False have "truncated_at s (Finite l) om lm = join (take (nat lm) (codepoints s)) @ om"
      by (simp add: truncated_at_def slice0_of_int)
    moreover have "nat lm \<le> j" using lm by (simp add: j_def k_def nat_mono)
    ultimately show ?thesis using that [of "nat lm"] by simp
  qed
  have "length (codepoints (join (take i (codepoints s)) @ om))
        \<le> length (codepoints (join (take i (codepoints s)))) + k"
    unfolding k_def by (rule codepoints_append_le)
  also have "\<dots> \<le> i + k" using codepoints_join_take_le [of i s] by simp
  also have "\<dots> \<le> j + k" using i by simp
  finally have "real (length (codepoints (truncated_at s (Finite l) om lm))) \<le> real j + real k"
    using t by simp
  with j show ?thesis by simp
qed

lemma first_slice_length:
  assumes "real (length (codepoints om)) \<le> l"
  shows "int (length (slice0 (codepoints s) (num_sub (Finite l) (array_length (codepoints om)))))
         \<le> \<lfloor>l - real (length (codepoints om))\<rfloor>"
proof -
  from assms have "0 \<le> \<lfloor>l - real (length (codepoints om))\<rfloor>" by simp
  then have "int (min (length (codepoints s)) (nat \<lfloor>l - real (length (codepoints om))\<rfloor>))
             \<le> \<lfloor>l - real (length (codepoints om))\<rfloor>"
    by linarith
  with assms show ?thesis by (simp add: array_length_def slice0_nonneg)
qed

lemma slice0_take_length: "slice0 xs e = take (length (slice0 xs e)) xs"
proof -
  obtain j where j: "slice0 xs e = take j xs" by (simp add: slice0_def Let_def)
  have "take j xs = take (length (take j xs)) xs"
    by (cases "j \<le> length xs") (simp_all add: min_def)
  with j show ?thesis by simp
qed

lemma truncated_at_suffix: "\<exists>p. truncated_at s n om lm = p @ om"
  by (simp add: truncated_at_def)

lemma truncate_bounded:
  assumes valid: "options_pass_validation options"
    and len: "get_prop (localOptions options) (js ''length'') = Number n"
    and om: "get_prop (localOptions options) (js ''omission'') = String om"
    and exceeds: "\<not> num_le (array_length (codepoints s)) n"
    and room: "num_le (array_length (codepoints om)) n"
    and returns: "truncate E (String s) options = Some (Inr r)"
  shows "\<exists>t. r = String t \<and> num_le (array_length (codepoints t)) n \<and> (\<exists>p. t = p @ om) \<and>
             length (codepoints t) \<le> length (codepoints s)"
proof -
  from room exceeds obtain l where n: "n = Finite l"
    by (cases n) (simp_all add: array_length_def)
  from room n have k: "real (length (codepoints om)) \<le> l" by (simp add: array_length_def)
  from exceeds n have count: "l < real (length (codepoints s))" by (simp add: array_length_def)
  define wbr where "wbr = get_prop (localOptions options) (js ''wordbreakregex'')"
  define wb where "wb = get_prop (localOptions options) (js ''wordbreak'')"
  define firstSlice where
    "firstSlice = slice0 (codepoints s) (num_sub n (array_length (codepoints om)))"
  define S where "S = normalised_prefix s n om"
  from truncate_checked [OF valid len om, of E s] exceeds returns
  obtain lm0 where search: "regex_search E wbr S = Some (Inr lm0)"
    and r: "r = String (truncated_at s n om (wordbreak_search wb firstSlice lm0))"
    by (auto simp: wbr_def wb_def firstSlice_def S_def split: option.splits sum.splits)
  define b where "b = \<lfloor>l - real (length (codepoints om))\<rfloor>"
  have fs: "int (length firstSlice) \<le> b"
    unfolding firstSlice_def n b_def by (rule first_slice_length [OF k])
  have "length S = length (codepoints (join firstSlice))"
    by (simp add: S_def normalised_prefix_def firstSlice_def length_replace_surrogate_pairs)
  moreover have "length (codepoints (join firstSlice)) \<le> length firstSlice"
  proof -
    have "firstSlice = take (length firstSlice) (codepoints s)"
      unfolding firstSlice_def by (rule slice0_take_length)
    then show ?thesis using codepoints_join_take_le [of "length firstSlice" s] by simp
  qed
  ultimately have S: "int (length S) \<le> b" using fs by simp
  from regex_search_bounds [OF search] S have lm0: "- 1 \<le> lm0" "lm0 \<le> b" by simp_all
  from wordbreak_search_bounds [OF lm0 fs]
  have lm: "- 1 \<le> wordbreak_search wb firstSlice lm0" "wordbreak_search wb firstSlice lm0 \<le> b"
    by simp_all
  define t where "t = truncated_at s n om (wordbreak_search wb firstSlice lm0)"
  have bound: "real (length (codepoints t)) \<le> l"
    unfolding t_def n using lm by (intro truncated_at_bound [OF k]) (simp_all add: b_def)
  have "r = String t" using r by (simp add: t_def)
  moreover have "num_le (array_length (codepoints t)) n"
    using bound by (simp add: n array_length_def)
  moreover have "\<exists>p. t = p @ om" unfolding t_def by (rule truncated_at_suffix)
  moreover have "length (codepoints t) \<le> length (codepoints s)"
    using bound count by simp
  ultimately show ?thesis by blast
qed

lemmas run_truncate =
  truncate_def localOptions_def defaultOptions_def get_prop_def Let_def array_length_def
  slice0_def is_high_surrogate_def is_low_surrogate_def regex_search_def wordbreak_search_def
  join_def isString_def js_def option_error_def options_pass_validation_def

text \<open>
  Claim C6. When the input has at most as many code points as the merged length,
  \<open>truncate\<close> returns the input itself: no omission is appended and no search for a word
  break is made. The comparison of the lengths is the step after the checks of the
  options, so the options are those that pass the checks.
\<close>

theorem truncate_within_length:
  assumes valid: "options_pass_validation options"
    and len: "get_prop (localOptions options) (js ''length'') = Number n"
    and within: "num_le (array_length (codepoints s)) n"
  shows "truncate E (String s) options = Some (Inr (String s))"
proof -
  from valid obtain om where "get_prop (localOptions options) (js ''omission'') = String om"
    by (auto simp: options_pass_validation_def typeof_string)
  from truncate_checked [OF valid len this, of E s] within show ?thesis by simp
qed

text \<open>The theorem of C6 at an input: three code points and the length 5.\<close>

theorem truncate_within_length_witness:
  "truncate example_engine (String (js ''abc'')) (Object [js ''length'' \<mapsto> Number (Finite 5)])
   = Some (Inr (String (js ''abc'')))"
proof (rule truncate_within_length)
  show "options_pass_validation (Object [js ''length'' \<mapsto> Number (Finite 5)])"
    by (simp add: run_truncate)
  show "get_prop (localOptions (Object [js ''length'' \<mapsto> Number (Finite 5)])) (js ''length'')
        = Number (Finite 5)"
    by (simp add: run_truncate)
  show "num_le (array_length (codepoints (js ''abc''))) (Finite 5)"
    by (simp add: run_truncate)
qed

text \<open>Options that give the length only pass the checks, whatever number it is.\<close>

lemma truncate_length_only:
  assumes "num_le (array_length (codepoints s)) n"
  shows "truncate E (String s) (Object [js ''length'' \<mapsto> Number n]) = Some (Inr (String s))"
proof -
  let ?options = "Object [js ''length'' \<mapsto> Number n]"
  have valid: "options_pass_validation ?options"
    by (simp add: options_pass_validation_def localOptions_def defaultOptions_def get_prop_def)
  have len: "get_prop (localOptions ?options) (js ''length'') = Number n"
    by (simp add: localOptions_def defaultOptions_def get_prop_def)
  have om: "get_prop (localOptions ?options) (js ''omission'') = String (js ''...'')"
    by (simp add: localOptions_def defaultOptions_def get_prop_def)
  from truncate_checked [OF valid len om, of E s] assms show ?thesis by simp
qed

section \<open>The errors of the checks\<close>

lemma option_error_message:
  "option_error E received v =
     (case ToString E v of
        Inl e \<Rightarrow> e
      | Inr t \<Rightarrow> TypeError (received @ t @ js '' Type: '' @ typeof v))"
  by (simp add: option_error_def)

text \<open>
  Claim C4, as amended. For a string as value the four checks come first and in the order
  length, omission, \<^verbatim>\<open>wordbreak\<close>, \<^verbatim>\<open>wordbreakregex\<close>; the first field that fails its check decides
  the error:
  \<^item> a length that is not a number;
  \<^item> else an omission that is not a string;
  \<^item> else a \<^verbatim>\<open>wordbreak\<close> that is truthy and not a string;
  \<^item> else a \<^verbatim>\<open>wordbreakregex\<close> that is truthy and not a string.

  The error is a \<open>TypeError\<close> whose message names that field, the value received and its
  type, unless the conversion of the value to a string throws, and then the error of the
  conversion. So whenever the options do not pass the checks \<open>truncate\<close> throws and
  returns no result, whatever the value and the other options are.
\<close>

theorem truncate_validation:
  fixes E s options
  defines "len \<equiv> get_prop (localOptions options) (js ''length'')"
    and "om \<equiv> get_prop (localOptions options) (js ''omission'')"
    and "wb \<equiv> get_prop (localOptions options) (js ''wordbreak'')"
    and "wbr \<equiv> get_prop (localOptions options) (js ''wordbreakregex'')"
  shows
    "(typeof len \<noteq> js ''number'' \<longrightarrow>
        truncate E (String s) options =
          Some (Inl (case ToString E len of
                       Inl e \<Rightarrow> e
                     | Inr t \<Rightarrow>
                         TypeError (js ''Expected a number. Received options.length='' @ t @
                                    js '' Type: '' @ typeof len)))) \<and>
     (typeof len = js ''number'' \<and> typeof om \<noteq> js ''string'' \<longrightarrow>
        truncate E (String s) options =
          Some (Inl (case ToString E om of
                       Inl e \<Rightarrow> e
                     | Inr t \<Rightarrow>
                         TypeError (js ''Expected a string. Received options.omission='' @ t @
                                    js '' Type: '' @ typeof om)))) \<and>
     (typeof len = js ''number'' \<and> typeof om = js ''string'' \<and>
      truthy wb \<and> typeof wb \<noteq> js ''string'' \<longrightarrow>
        truncate E (String s) options =
          Some (Inl (case ToString E wb of
                       Inl e \<Rightarrow> e
                     | Inr t \<Rightarrow>
                         TypeError (js ''Expected a string. Received options.wordbreak='' @ t @
                                    js '' Type: '' @ typeof wb)))) \<and>
     (typeof len = js ''number'' \<and> typeof om = js ''string'' \<and>
      \<not> (truthy wb \<and> typeof wb \<noteq> js ''string'') \<and>
      truthy wbr \<and> typeof wbr \<noteq> js ''string'' \<longrightarrow>
        truncate E (String s) options =
          Some (Inl (case ToString E wbr of
                       Inl e \<Rightarrow> e
                     | Inr t \<Rightarrow>
                         TypeError (js ''Expected a string. Received options.wordbreakregex='' @ t @
                                    js '' Type: '' @ typeof wbr)))) \<and>
     (\<not> options_pass_validation options \<longrightarrow>
        (\<exists>e. truncate E (String s) options = Some (Inl e)))"
proof -
  have first: "truncate E (String s) options =
      Some (Inl (option_error E (js ''Expected a number. Received options.length='') len))"
    if "typeof len \<noteq> js ''number''"
    using that by (simp add: truncate_def Let_def len_def)
  have second: "truncate E (String s) options =
      Some (Inl (option_error E (js ''Expected a string. Received options.omission='') om))"
    if "typeof len = js ''number''" "typeof om \<noteq> js ''string''"
    using that by (simp add: truncate_def Let_def len_def om_def)
  have third: "truncate E (String s) options =
      Some (Inl (option_error E (js ''Expected a string. Received options.wordbreak='') wb))"
    if "typeof len = js ''number''" "typeof om = js ''string''"
       "truthy wb" "typeof wb \<noteq> js ''string''"
    using that by (simp add: truncate_def Let_def len_def om_def wb_def)
  have fourth: "truncate E (String s) options =
      Some (Inl (option_error E (js ''Expected a string. Received options.wordbreakregex='') wbr))"
    if "typeof len = js ''number''" "typeof om = js ''string''"
       "\<not> (truthy wb \<and> typeof wb \<noteq> js ''string'')"
       "truthy wbr" "typeof wbr \<noteq> js ''string''"
    using that by (auto simp add: truncate_def Let_def len_def om_def wb_def wbr_def)
  have throws: "\<exists>e. truncate E (String s) options = Some (Inl e)"
    if "\<not> options_pass_validation options"
  proof -
    from that consider "typeof len \<noteq> js ''number''"
      | "typeof len = js ''number''" "typeof om \<noteq> js ''string''"
      | "typeof len = js ''number''" "typeof om = js ''string''"
        "truthy wb" "typeof wb \<noteq> js ''string''"
      | "typeof len = js ''number''" "typeof om = js ''string''"
        "\<not> (truthy wb \<and> typeof wb \<noteq> js ''string'')"
        "truthy wbr" "typeof wbr \<noteq> js ''string''"
      unfolding options_pass_validation_def len_def om_def wb_def wbr_def by blast
    then show ?thesis
    proof cases
      case 1 from first [OF 1] show ?thesis by blast
    next
      case 2 from second [OF 2] show ?thesis by blast
    next
      case 3 from third [OF 3] show ?thesis by blast
    next
      case 4 from fourth [OF 4] show ?thesis by blast
    qed
  qed
  from first second third fourth throws show ?thesis
    unfolding option_error_message by blast
qed

lemmas run_search =
  last_match_loop.simps RegExpBuiltinExec.simps AdvanceStringIndex_def example_engine_def
  example_RegExpCreate_def literal_matcher_def star_matcher_def is_high_surrogate_def
  is_low_surrogate_def

text \<open>
  The theorem of C4 at two inputs. With the string \<^verbatim>\<open>5\<close> as length and the number 5 as
  omission both fields fail their checks, and the error names the length, the first of
  them. With the number 5 as omission alone the error names the omission.
\<close>

theorem truncate_validation_witness:
  "\<not> options_pass_validation
       (Object [js ''length'' \<mapsto> String (js ''5''), js ''omission'' \<mapsto> Number (Finite 5)]) \<and>
   truncate example_engine (String (js ''abc''))
     (Object [js ''length'' \<mapsto> String (js ''5''), js ''omission'' \<mapsto> Number (Finite 5)])
     = Some (Inl (TypeError (js ''Expected a number. Received options.length=5 Type: string''))) \<and>
   truncate example_engine (String (js ''abc'')) (Object [js ''omission'' \<mapsto> Number (Finite 5)])
     = Some (Inl (TypeError (js ''Expected a string. Received options.omission=5 Type: number'')))"
proof -
  let ?both = "Object [js ''length'' \<mapsto> String (js ''5''), js ''omission'' \<mapsto> Number (Finite 5)]"
  let ?one = "Object [js ''omission'' \<mapsto> Number (Finite 5)]"
  have invalid: "\<not> options_pass_validation ?both"
    by (simp add: options_pass_validation_def localOptions_def defaultOptions_def get_prop_def)
  have len_both: "get_prop (localOptions ?both) (js ''length'') = String (js ''5'')"
    by (simp add: localOptions_def defaultOptions_def get_prop_def)
  have len_one: "get_prop (localOptions ?one) (js ''length'') = Number (Finite 30)"
    by (simp add: localOptions_def defaultOptions_def get_prop_def)
  have om_one: "get_prop (localOptions ?one) (js ''omission'') = Number (Finite 5)"
    by (simp add: localOptions_def defaultOptions_def get_prop_def)
  have five: "NumberToString example_engine (Finite 5) = js ''5''"
    by (simp add: example_engine_def example_NumberToString_def digits.simps js_def)
  have text_len: "js ''Expected a number. Received options.length='' @ js ''5'' @ js '' Type: '' @
                  js ''string'' = js ''Expected a number. Received options.length=5 Type: string''"
    by (simp add: js_def)
  have text_om: "js ''Expected a string. Received options.omission='' @ js ''5'' @ js '' Type: '' @
                 js ''number'' = js ''Expected a string. Received options.omission=5 Type: number''"
    by (simp add: js_def)
  from truncate_validation [where E = example_engine and s = "js ''abc''" and options = ?both]
  have "truncate example_engine (String (js ''abc'')) ?both =
          Some (Inl (TypeError (js ''Expected a number. Received options.length='' @ js ''5'' @
                                js '' Type: '' @ js ''string'')))"
    by (simp add: len_both)
  then have both: "truncate example_engine (String (js ''abc'')) ?both
      = Some (Inl (TypeError (js ''Expected a number. Received options.length=5 Type: string'')))"
    by (simp only: text_len)
  from truncate_validation [where E = example_engine and s = "js ''abc''" and options = ?one]
  have "truncate example_engine (String (js ''abc'')) ?one =
          Some (Inl (TypeError (js ''Expected a string. Received options.omission='' @ js ''5'' @
                                js '' Type: '' @ js ''number'')))"
    by (simp add: len_one om_one five)
  then have one: "truncate example_engine (String (js ''abc'')) ?one
      = Some (Inl (TypeError (js ''Expected a string. Received options.omission=5 Type: number'')))"
    by (simp only: text_om)
  from invalid both one show ?thesis by blast
qed

text \<open>
  Claim C4 as stated fails for a \<^verbatim>\<open>wordbreak\<close> that is present, not a string and falsy: the
  check of the field starts with the truth value of the field, and \<^verbatim>\<open>false\<close> passes it.
  And the error need not name the field: the message is built from the value received,
  and an object whose conversion to a string throws gives that error instead.
\<close>

theorem truncate_validation_counterexample:
  "get_prop (localOptions (Object [js ''wordbreak'' \<mapsto> Boolean False])) (js ''wordbreak'')
     = Boolean False \<and>
   typeof (Boolean False) \<noteq> js ''string'' \<and>
   truncate example_engine (String (js ''abc'')) (Object [js ''wordbreak'' \<mapsto> Boolean False])
     = Some (Inr (String (js ''abc''))) \<and>
   truncate example_engine (String (js ''abc''))
      (Object [js ''length'' \<mapsto> Object [js ''toString'' \<mapsto> Number (Finite 1)]])
     = Some (Inl (TypeError (js ''Cannot convert object to primitive value'')))"
  by (simp add: run_truncate example_engine_def example_ObjectToString_def)

section \<open>The loop over the matches\<close>

lemma last_match_loop_match:
  assumes "last_match_loop m S i lm = Some r"
  shows "0 \<le> lm \<and> m S (nat lm) \<noteq> None \<longrightarrow> 0 \<le> r \<and> m S (nat r) \<noteq> None"
  using assms
proof (induction m S i lm r rule: last_match_loop.raw_induct [rotated 1, consumes 1])
  case (1 f m S i lm r)
  show ?case
  proof (cases "RegExpBuiltinExec m S i")
    case None
    with "1.hyps" show ?thesis by simp
  next
    case (Some p)
    obtain idx e where p: "p = (idx, e)" by (cases p)
    from RegExpBuiltinExec_Some [of m S i idx e] Some p have "m S idx = Some e" by simp
    moreover from "1.hyps" Some p have "f m S e (int idx) = Some r" by simp
    ultimately show ?thesis using "1.IH" [of m S e "int idx" r] by simp
  qed
qed

lemma last_match_loop_found:
  assumes "RegExpBuiltinExec m S 0 \<noteq> None" and "last_match_loop m S 0 (- 1) = Some r"
  shows "0 \<le> r \<and> m S (nat r) \<noteq> None"
proof -
  from assms(1) obtain idx e where first: "RegExpBuiltinExec m S 0 = Some (idx, e)" by auto
  with assms(2) have "last_match_loop m S e (int idx) = Some r"
    by (simp add: last_match_loop.simps [of m S 0])
  moreover from RegExpBuiltinExec_Some [OF first] have "m S idx = Some e" by simp
  ultimately show ?thesis using last_match_loop_match [of m S e "int idx" r] by simp
qed

lemma last_match_loop_stuck:
  assumes "last_match_loop m S i lm = Some r"
  shows "RegExpBuiltinExec m S i = Some (j, i) \<longrightarrow> False"
  using assms
proof (induction m S i lm r rule: last_match_loop.raw_induct [rotated 1, consumes 1])
  case (1 f m S i lm r)
  show ?case
  proof
    assume stuck: "RegExpBuiltinExec m S i = Some (j, i)"
    with "1.hyps" have "f m S i (int j) = Some r" by simp
    from "1.IH" [OF this] stuck show False by simp
  qed
qed

lemma last_match_loop_diverges:
  "RegExpBuiltinExec m S i = Some (j, i) \<Longrightarrow> last_match_loop m S i lm = None"
  using last_match_loop_stuck [of m S i lm _ j] by (cases "last_match_loop m S i lm") auto

lemma last_match_loop_terminates:
  assumes progress: "\<And>i e. m S i = Some e \<Longrightarrow> i < e"
  shows "\<exists>r. last_match_loop m S i lm = Some r"
proof (induction "Suc (length S) - i" arbitrary: i lm rule: less_induct)
  case less
  show ?case
  proof (cases "RegExpBuiltinExec m S i")
    case None
    then show ?thesis by (simp add: last_match_loop.simps [of m S i])
  next
    case (Some p)
    obtain idx e where p: "p = (idx, e)" by (cases p)
    from RegExpBuiltinExec_Some [of m S i idx e] Some p
    have "i \<le> idx" "idx \<le> length S" "m S idx = Some e" by simp_all
    with progress [of idx e] have "Suc (length S) - e < Suc (length S) - i" by simp
    from less [OF this, of "int idx"] Some p show ?thesis
      by (simp add: last_match_loop.simps [of m S i])
  qed
qed

text \<open>
  The index that the loop ends with is that of the last match: a match starts there, and
  from the end of that match on the pattern is found no more. It is -1 only when the
  pattern is found nowhere.
\<close>

lemma last_match_loop_last:
  assumes "last_match_loop m S i lm = Some r"
  shows "lm = - 1 \<or> (0 \<le> lm \<and> m S (nat lm) = Some i) \<longrightarrow>
         (r = - 1 \<and> lm = - 1 \<and> RegExpBuiltinExec m S i = None) \<or>
         (0 \<le> r \<and> (\<exists>e. m S (nat r) = Some e \<and> RegExpBuiltinExec m S e = None))"
  using assms
proof (induction m S i lm r rule: last_match_loop.raw_induct [rotated 1, consumes 1])
  case (1 f m S i lm r)
  show ?case
  proof (cases "RegExpBuiltinExec m S i")
    case None
    with "1.hyps" have "r = lm" by simp
    with None show ?thesis by auto
  next
    case (Some p)
    obtain idx e where p: "p = (idx, e)" by (cases p)
    from RegExpBuiltinExec_Some [of m S i idx e] Some p have "m S idx = Some e" by simp
    moreover from "1.hyps" Some p have "f m S e (int idx) = Some r" by simp
    ultimately show ?thesis using "1.IH" [of m S e "int idx" r] by simp
  qed
qed

lemma last_match_loop_from_start:
  assumes "last_match_loop m S 0 (- 1) = Some r"
  shows "(r = - 1 \<and> RegExpBuiltinExec m S 0 = None) \<or>
         (0 \<le> r \<and> (\<exists>e. m S (nat r) = Some e \<and> RegExpBuiltinExec m S e = None))"
  using last_match_loop_last [OF assms] by simp

section \<open>The two word break searches\<close>

lemma regex_search_compiled:
  "source \<noteq> [] \<Longrightarrow> RegExpCreate E source = Some separator \<Longrightarrow>
   regex_search E (String source) S = map_option Inr (last_match_loop separator S 0 (- 1))"
  by (simp add: regex_search_def isString_def)

lemma wordbreak_search_found: "lastMatch \<noteq> - 1 \<Longrightarrow> wordbreak_search w xs lastMatch = lastMatch"
  by (cases w) (simp_all add: wordbreak_search_def)

text \<open>
  The pattern comes before the literal. Let the options pass the checks, let the omission
  fit in the length, let \<^verbatim>\<open>wordbreakregex\<close> be a string that is not empty, so that
  \<open>truncate\<close> compiles it, and let the pattern match at least once in the candidate
  prefix. Then, whatever \<^verbatim>\<open>wordbreak\<close> is, the outcome of \<open>truncate\<close> is that of the loop over
  the matches alone. When the loop ends, its index is that of the last match, the search
  with \<^verbatim>\<open>wordbreak\<close> leaves it as it is, and the call returns the code points before it and
  the omission. The loop ends whenever no match of the pattern is empty.
\<close>

lemma regex_precedence:
  assumes valid: "options_pass_validation options"
    and len: "get_prop (localOptions options) (js ''length'') = Number n"
    and om: "get_prop (localOptions options) (js ''omission'') = String om"
    and wbr: "get_prop (localOptions options) (js ''wordbreakregex'') = String source"
    and nonempty: "source \<noteq> []"
    and compiled: "RegExpCreate E source = Some separator"
    and exceeds: "\<not> num_le (array_length (codepoints s)) n"
    and room: "num_le (array_length (codepoints om)) n"
    and matches: "RegExpBuiltinExec separator (normalised_prefix s n om) 0 \<noteq> None"
  shows "truncate E (String s) options =
           (case last_match_loop separator (normalised_prefix s n om) 0 (- 1) of
              None \<Rightarrow> None
            | Some lastMatch \<Rightarrow> Some (Inr (String (truncated_at s n om lastMatch)))) \<and>
         (\<forall>lastMatch. last_match_loop separator (normalised_prefix s n om) 0 (- 1) = Some lastMatch \<longrightarrow>
            0 \<le> lastMatch \<and>
            (\<exists>e. separator (normalised_prefix s n om) (nat lastMatch) = Some e \<and>
                 RegExpBuiltinExec separator (normalised_prefix s n om) e = None) \<and>
            wordbreak_search (get_prop (localOptions options) (js ''wordbreak''))
              (slice0 (codepoints s) (num_sub n (array_length (codepoints om)))) lastMatch
              = lastMatch) \<and>
         ((\<forall>i e. separator (normalised_prefix s n om) i = Some e \<longrightarrow> i < e) \<longrightarrow>
            (\<exists>lastMatch. 0 \<le> lastMatch \<and>
               truncate E (String s) options = Some (Inr (String (truncated_at s n om lastMatch)))))"
proof -
  let ?S = "normalised_prefix s n om"
  let ?firstSlice = "slice0 (codepoints s) (num_sub n (array_length (codepoints om)))"
  let ?wordbreak = "get_prop (localOptions options) (js ''wordbreak'')"
  have found: "0 \<le> lastMatch \<and>
               (\<exists>e. separator ?S (nat lastMatch) = Some e \<and> RegExpBuiltinExec separator ?S e = None) \<and>
               wordbreak_search ?wordbreak ?firstSlice lastMatch = lastMatch"
    if "last_match_loop separator ?S 0 (- 1) = Some lastMatch" for lastMatch
  proof -
    from last_match_loop_from_start [OF that] matches
    have last: "0 \<le> lastMatch"
      "\<exists>e. separator ?S (nat lastMatch) = Some e \<and> RegExpBuiltinExec separator ?S e = None"
      by auto
    moreover from \<open>0 \<le> lastMatch\<close> have "wordbreak_search ?wordbreak ?firstSlice lastMatch = lastMatch"
      by (intro wordbreak_search_found) simp
    ultimately show ?thesis by simp
  qed
  have outcome: "truncate E (String s) options =
      (case last_match_loop separator ?S 0 (- 1) of
         None \<Rightarrow> None
       | Some lastMatch \<Rightarrow> Some (Inr (String (truncated_at s n om lastMatch))))"
  proof (cases "last_match_loop separator ?S 0 (- 1)")
    case None
    then show ?thesis
      using exceeds
      by (simp add: truncate_checked [OF valid len om] wbr regex_search_compiled [OF nonempty compiled])
  next
    case (Some lastMatch)
    with found [OF Some] show ?thesis
      using exceeds
      by (simp add: truncate_checked [OF valid len om] wbr
          regex_search_compiled [OF nonempty compiled])
  qed
  have returns: "\<exists>lastMatch. 0 \<le> lastMatch \<and>
      truncate E (String s) options = Some (Inr (String (truncated_at s n om lastMatch)))"
    if progress: "\<forall>i e. separator ?S i = Some e \<longrightarrow> i < e"
  proof -
    from progress have "\<exists>r. last_match_loop separator ?S 0 (- 1) = Some r"
      by (intro last_match_loop_terminates) blast
    then obtain r where r: "last_match_loop separator ?S 0 (- 1) = Some r" ..
    with outcome found [OF r] show ?thesis by auto
  qed
  from outcome found returns show ?thesis by blast
qed

text \<open>
  An input: the pattern of one space and the literal \<^verbatim>\<open>o\<close>. The prefix is
  \<^verbatim>\<open>hello big world\<close>; the pattern matches at the indices 5 and 9, the last \<^verbatim>\<open>o\<close> is at index
  11, and the result is cut at 9.
\<close>

lemma regex_precedence_example:
  "truncate example_engine (String (js ''hello big world, again''))
     (Object [js ''length'' \<mapsto> Number (Finite 18), js ''wordbreak'' \<mapsto> String (js ''o''),
              js ''wordbreakregex'' \<mapsto> String (js '' '')])
   = Some (Inr (String (js ''hello big...''))) \<and>
   normalised_prefix (js ''hello big world, again'') (Finite 18) (js ''...'') = js ''hello big world'' \<and>
   last_match_loop (literal_matcher 0x20) (js ''hello big world'') 0 (- 1) = Some 9 \<and>
   lastIndexOf (slice0 (codepoints (js ''hello big world, again''))
                  (num_sub (Finite 18) (array_length (codepoints (js ''...''))))) (js ''o'') = 11"
proof -
  let ?options = "Object [js ''length'' \<mapsto> Number (Finite 18), js ''wordbreak'' \<mapsto> String (js ''o''),
              js ''wordbreakregex'' \<mapsto> String (js '' '')]"
  let ?s = "js ''hello big world, again''"
  have valid: "options_pass_validation ?options"
    by (simp add: run_truncate)
  have len: "get_prop (localOptions ?options) (js ''length'') = Number (Finite 18)"
    by (simp add: run_truncate)
  have om: "get_prop (localOptions ?options) (js ''omission'') = String (js ''...'')"
    by (simp add: run_truncate)
  have wbr: "get_prop (localOptions ?options) (js ''wordbreakregex'') = String (js '' '')"
    by (simp add: run_truncate)
  have nonempty: "js '' '' \<noteq> []"
    by (simp add: js_def)
  have compiled: "RegExpCreate example_engine (js '' '') = Some (literal_matcher 0x20)"
    by (simp add: example_engine_def example_RegExpCreate_def)
  have exceeds: "\<not> num_le (array_length (codepoints ?s)) (Finite 18)"
    by (simp add: run_truncate)
  have room: "num_le (array_length (codepoints (js ''...''))) (Finite 18)"
    by (simp add: run_truncate)
  have prefix: "normalised_prefix ?s (Finite 18) (js ''...'') = js ''hello big world''"
    by (simp add: normalised_prefix_def run_truncate)
  have matches: "RegExpBuiltinExec (literal_matcher 0x20) (normalised_prefix ?s (Finite 18) (js ''...'')) 0
                 \<noteq> None"
    unfolding prefix by (simp add: run_search js_def)
  have loop: "last_match_loop (literal_matcher 0x20) (js ''hello big world'') 0 (- 1) = Some 9"
    by (simp add: run_search js_def)
  have cut: "truncated_at ?s (Finite 18) (js ''...'') 9 = js ''hello big...''"
    by (simp add: truncated_at_def run_truncate)
  have literal: "lastIndexOf (slice0 (codepoints ?s)
                  (num_sub (Finite 18) (array_length (codepoints (js ''...''))))) (js ''o'') = 11"
    by (simp add: run_truncate)
  from regex_precedence [OF valid len om wbr nonempty compiled exceeds room matches]
  have "truncate example_engine (String ?s) ?options =
           (case last_match_loop (literal_matcher 0x20) (normalised_prefix ?s (Finite 18) (js ''...'')) 0 (- 1) of
              None \<Rightarrow> None
            | Some lastMatch \<Rightarrow> Some (Inr (String (truncated_at ?s (Finite 18) (js ''...'') lastMatch))))"
    by blast
  with loop cut prefix have "truncate example_engine (String ?s) ?options
                      = Some (Inr (String (js ''hello big...'')))"
    by simp
  with prefix loop literal show ?thesis by blast
qed

text \<open>
  Claim C8 fails on the code: the loop does not end when a match is empty. A pattern with
  the \<^verbatim>\<open>g\<close> flag leaves \<^verbatim>\<open>lastIndex\<close> at the end of its match, so after an empty match the
  next \<^verbatim>\<open>exec\<close> starts where the last one did and finds the same match again. With the
  pattern \<^verbatim>\<open>b*\<close> and a value without a \<^verbatim>\<open>b\<close> the first match is the empty string at index 0,
  and \<open>truncate\<close> does not return.
\<close>

theorem truncate_empty_match_diverges:
  "RegExpCreate example_engine (js ''b*'') = Some (star_matcher 0x62) \<and>
   star_matcher 0x62 (js ''aa'') 0 = Some 0 \<and>
   truncate example_engine (String (js ''aaaaaaaaaa''))
     (Object [js ''length'' \<mapsto> Number (Finite 5), js ''wordbreakregex'' \<mapsto> String (js ''b*'')])
   = None"
proof -
  let ?options = "Object [js ''length'' \<mapsto> Number (Finite 5), js ''wordbreakregex'' \<mapsto> String (js ''b*'')]"
  let ?s = "js ''aaaaaaaaaa''"
  have valid: "options_pass_validation ?options"
    by (simp add: run_truncate)
  have len: "get_prop (localOptions ?options) (js ''length'') = Number (Finite 5)"
    by (simp add: run_truncate)
  have om: "get_prop (localOptions ?options) (js ''omission'') = String (js ''...'')"
    by (simp add: run_truncate)
  have wbr: "get_prop (localOptions ?options) (js ''wordbreakregex'') = String (js ''b*'')"
    by (simp add: run_truncate)
  have nonempty: "js ''b*'' \<noteq> []"
    by (simp add: js_def)
  have compiled: "RegExpCreate example_engine (js ''b*'') = Some (star_matcher 0x62)"
    by (simp add: example_engine_def example_RegExpCreate_def)
  have exceeds: "\<not> num_le (array_length (codepoints ?s)) (Finite 5)"
    by (simp add: run_truncate)
  have prefix: "normalised_prefix ?s (Finite 5) (js ''...'') = js ''aa''"
    by (simp add: normalised_prefix_def run_truncate)
  have empty: "star_matcher 0x62 (js ''aa'') 0 = Some 0"
    by (simp add: star_matcher_def js_def)
  then have "RegExpBuiltinExec (star_matcher 0x62) (js ''aa'') 0 = Some (0, 0)"
    by (simp add: RegExpBuiltinExec.simps [of _ _ 0])
  then have "last_match_loop (star_matcher 0x62) (js ''aa'') 0 (- 1) = None"
    by (rule last_match_loop_diverges)
  with exceeds have "truncate example_engine (String ?s) ?options = None"
    by (simp add: truncate_checked [OF valid len om] wbr prefix
        regex_search_compiled [OF nonempty compiled])
  with compiled empty show ?thesis by simp
qed

text \<open>
  Claim C7 fails on the code, by the defect of C8. Here both options are given as
  strings, the length is a number and the omission a string, and the pattern \<^verbatim>\<open>b*\<close> matches in the candidate prefix \<^verbatim>\<open>aa\<close>: the
  empty string at index 0. The loop over the matches finds that match again and again,
  no truncation point comes out of it, and \<open>truncate\<close> does not return.
\<close>

theorem regex_precedence_diverges:
  "get_prop (localOptions
     (Object [js ''length'' \<mapsto> Number (Finite 5), js ''wordbreak'' \<mapsto> String (js ''a''),
              js ''wordbreakregex'' \<mapsto> String (js ''b*'')])) (js ''length'') = Number (Finite 5) \<and>
   get_prop (localOptions
     (Object [js ''length'' \<mapsto> Number (Finite 5), js ''wordbreak'' \<mapsto> String (js ''a''),
              js ''wordbreakregex'' \<mapsto> String (js ''b*'')])) (js ''omission'') = String (js ''...'') \<and>
   get_prop (localOptions
     (Object [js ''length'' \<mapsto> Number (Finite 5), js ''wordbreak'' \<mapsto> String (js ''a''),
              js ''wordbreakregex'' \<mapsto> String (js ''b*'')])) (js ''wordbreak'') = String (js ''a'') \<and>
   get_prop (localOptions
     (Object [js ''length'' \<mapsto> Number (Finite 5), js ''wordbreak'' \<mapsto> String (js ''a''),
              js ''wordbreakregex'' \<mapsto> String (js ''b*'')])) (js ''wordbreakregex'') = String (js ''b*'') \<and>
   RegExpCreate example_engine (js ''b*'') = Some (star_matcher 0x62) \<and>
   normalised_prefix (js ''aaaaaaaaaa'') (Finite 5) (js ''...'') = js ''aa'' \<and>
   RegExpBuiltinExec (star_matcher 0x62) (js ''aa'') 0 = Some (0, 0) \<and>
   truncate example_engine (String (js ''aaaaaaaaaa''))
     (Object [js ''length'' \<mapsto> Number (Finite 5), js ''wordbreak'' \<mapsto> String (js ''a''),
              js ''wordbreakregex'' \<mapsto> String (js ''b*'')])
   = None"
proof -
  let ?options = "Object [js ''length'' \<mapsto> Number (Finite 5), js ''wordbreak'' \<mapsto> String (js ''a''),
              js ''wordbreakregex'' \<mapsto> String (js ''b*'')]"
  let ?s = "js ''aaaaaaaaaa''"
  have valid: "options_pass_validation ?options"
    by (simp add: run_truncate)
  have len: "get_prop (localOptions ?options) (js ''length'') = Number (Finite 5)"
    by (simp add: run_truncate)
  have om: "get_prop (localOptions ?options) (js ''omission'') = String (js ''...'')"
    by (simp add: run_truncate)
  have wb: "get_prop (localOptions ?options) (js ''wordbreak'') = String (js ''a'')"
    by (simp add: run_truncate)
  have wbr: "get_prop (localOptions ?options) (js ''wordbreakregex'') = String (js ''b*'')"
    by (simp add: run_truncate)
  have nonempty: "js ''b*'' \<noteq> []"
    by (simp add: js_def)
  have compiled: "RegExpCreate example_engine (js ''b*'') = Some (star_matcher 0x62)"
    by (simp add: example_engine_def example_RegExpCreate_def)
  have exceeds: "\<not> num_le (array_length (codepoints ?s)) (Finite 5)"
    by (simp add: run_truncate)
  have prefix: "normalised_prefix ?s (Finite 5) (js ''...'') = js ''aa''"
    by (simp add: normalised_prefix_def run_truncate)
  have "star_matcher 0x62 (js ''aa'') 0 = Some 0"
    by (simp add: star_matcher_def js_def)
  then have first: "RegExpBuiltinExec (star_matcher 0x62) (js ''aa'') 0 = Some (0, 0)"
    by (simp add: RegExpBuiltinExec.simps [of _ _ 0])
  then have "last_match_loop (star_matcher 0x62) (js ''aa'') 0 (- 1) = None"
    by (rule last_match_loop_diverges)
  with exceeds have "truncate example_engine (String ?s) ?options = None"
    by (simp add: truncate_checked [OF valid len om] wbr prefix
        regex_search_compiled [OF nonempty compiled])
  with len om wb wbr compiled prefix first show ?thesis by blast
qed

section \<open>The result of truncate on a long input\<close>

lemma truncate_result_suffix:
  assumes "options_pass_validation options"
    and "get_prop (localOptions options) (js ''length'') = Number n"
    and "get_prop (localOptions options) (js ''omission'') = String om"
    and "\<not> num_le (array_length (codepoints s)) n"
    and "truncate E (String s) options = Some (Inr r)"
  shows "\<exists>p. r = String (p @ om)"
  using assms(4,5) truncated_at_suffix [of s n om]
  by (auto simp: truncate_checked [OF assms(1-3)] split: option.splits sum.splits)

lemma truncate_returns_without_regex:
  assumes "options_pass_validation options"
    and "get_prop (localOptions options) (js ''length'') = Number n"
    and "get_prop (localOptions options) (js ''omission'') = String om"
    and "\<not> num_le (array_length (codepoints s)) n"
    and "\<not> truthy (get_prop (localOptions options) (js ''wordbreakregex''))"
  shows "\<exists>t. truncate E (String s) options = Some (Inr (String t))"
  using assms(4) regex_search_not_string [of "get_prop (localOptions options) (js ''wordbreakregex'')"]
    assms(5)
  by (simp add: truncate_checked [OF assms(1-3)])

lemma truncate_returns_with_regex:
  assumes "options_pass_validation options"
    and "get_prop (localOptions options) (js ''length'') = Number n"
    and "get_prop (localOptions options) (js ''omission'') = String om"
    and "\<not> num_le (array_length (codepoints s)) n"
    and wbr: "get_prop (localOptions options) (js ''wordbreakregex'') = String source"
    and nonempty: "source \<noteq> []"
    and compiled: "RegExpCreate E source = Some separator"
    and progress: "\<forall>S i e. separator S i = Some e \<longrightarrow> i < e"
  shows "\<exists>t. truncate E (String s) options = Some (Inr (String t))"
proof -
  from progress have "\<exists>r. last_match_loop separator (normalised_prefix s n om) 0 (- 1) = Some r"
    by (intro last_match_loop_terminates) blast
  then obtain r where "last_match_loop separator (normalised_prefix s n om) 0 (- 1) = Some r" ..
  with assms(4) show ?thesis
    by (simp add: truncate_checked [OF assms(1-3)] wbr regex_search_compiled [OF nonempty compiled])
qed

text \<open>
  Claim C1, as amended. Let the merged options pass the checks and let the input have more
  code points than the merged length. Then:
  \<^item> every string that \<open>truncate\<close> returns ends with the omission;
  \<^item> when the omission has at most as many code points as the merged length, every
    string that \<open>truncate\<close> returns has at most \<open>length\<close> code points, and no more code
    points than the input;
  \<^item> \<open>truncate\<close> does return a string when \<^verbatim>\<open>wordbreakregex\<close> is not truthy, and when it is
    a string that compiles to a pattern no match of which is empty.
\<close>

theorem truncate_length_bound:
  assumes valid: "options_pass_validation options"
    and len: "get_prop (localOptions options) (js ''length'') = Number n"
    and om: "get_prop (localOptions options) (js ''omission'') = String om"
    and exceeds: "\<not> num_le (array_length (codepoints s)) n"
  shows "(\<forall>r. truncate E (String s) options = Some (Inr r) \<longrightarrow> (\<exists>p. r = String (p @ om))) \<and>
         (num_le (array_length (codepoints om)) n \<longrightarrow>
            (\<forall>r. truncate E (String s) options = Some (Inr r) \<longrightarrow>
               (\<exists>t. r = String t \<and> num_le (array_length (codepoints t)) n \<and>
                    length (codepoints t) \<le> length (codepoints s)))) \<and>
         (\<not> truthy (get_prop (localOptions options) (js ''wordbreakregex'')) \<longrightarrow>
            (\<exists>t. truncate E (String s) options = Some (Inr (String t)))) \<and>
         (\<forall>source separator.
            get_prop (localOptions options) (js ''wordbreakregex'') = String source \<and>
            source \<noteq> [] \<and> RegExpCreate E source = Some separator \<and>
            (\<forall>S i e. separator S i = Some e \<longrightarrow> i < e) \<longrightarrow>
            (\<exists>t. truncate E (String s) options = Some (Inr (String t))))"
proof -
  have suffix: "\<exists>p. r = String (p @ om)" if "truncate E (String s) options = Some (Inr r)" for r
    using truncate_result_suffix [OF valid len om exceeds that] .
  have bound: "\<exists>t. r = String t \<and> num_le (array_length (codepoints t)) n \<and>
                   length (codepoints t) \<le> length (codepoints s)"
    if "num_le (array_length (codepoints om)) n" "truncate E (String s) options = Some (Inr r)" for r
    using truncate_bounded [OF valid len om exceeds that] by blast
  have plain: "\<exists>t. truncate E (String s) options = Some (Inr (String t))"
    if "\<not> truthy (get_prop (localOptions options) (js ''wordbreakregex''))"
    using truncate_returns_without_regex [OF valid len om exceeds that] .
  have pattern: "\<exists>t. truncate E (String s) options = Some (Inr (String t))"
    if "get_prop (localOptions options) (js ''wordbreakregex'') = String source"
       "source \<noteq> []" "RegExpCreate E source = Some separator"
       "\<forall>S i e. separator S i = Some e \<longrightarrow> i < e"
    for source separator
    using truncate_returns_with_regex [OF valid len om exceeds that] .
  from suffix bound plain pattern show ?thesis by blast
qed

text \<open>
  Claim C1 as stated fails when the omission has more code points than the length: with
  the length 2 and the default omission of three dots, the end of the first slice is -1,
  the slice drops only the last code point of \<^verbatim>\<open>abcdef\<close>, and the result \<^verbatim>\<open>abcde...\<close> has
  eight code points, more than the length and more than the input.
\<close>

theorem truncate_length_bound_counterexample:
  "options_pass_validation (Object [js ''length'' \<mapsto> Number (Finite 2)]) \<and>
   get_prop (localOptions (Object [js ''length'' \<mapsto> Number (Finite 2)])) (js ''omission'')
     = String (js ''...'') \<and>
   \<not> num_le (array_length (codepoints (js ''abcdef''))) (Finite 2) \<and>
   truncate example_engine (String (js ''abcdef'')) (Object [js ''length'' \<mapsto> Number (Finite 2)])
     = Some (Inr (String (js ''abcde...''))) \<and>
   \<not> num_le (array_length (codepoints (js ''abcde...''))) (Finite 2) \<and>
   \<not> length (codepoints (js ''abcde...'')) \<le> length (codepoints (js ''abcdef''))"
  by (simp add: run_truncate)

text \<open>
  The theorem of C1 at an input: the length 15 leaves twelve code points of
  \<^verbatim>\<open>hello world, again\<close>, the last space among them is at index 5, no pattern is given, and
  the call returns \<^verbatim>\<open>hello...\<close>.
\<close>

theorem truncate_length_bound_witness:
  "truncate example_engine (String (js ''hello world, again''))
     (Object [js ''length'' \<mapsto> Number (Finite 15), js ''wordbreak'' \<mapsto> String (js '' '')])
     = Some (Inr (String (js ''hello...''))) \<and>
   (\<exists>t. truncate example_engine (String (js ''hello world, again''))
          (Object [js ''length'' \<mapsto> Number (Finite 15), js ''wordbreak'' \<mapsto> String (js '' '')])
          = Some (Inr (String t)) \<and>
        (\<exists>p. t = p @ js ''...'') \<and>
        num_le (array_length (codepoints t)) (Finite 15) \<and>
        length (codepoints t) \<le> length (codepoints (js ''hello world, again'')))"
proof -
  let ?options = "Object [js ''length'' \<mapsto> Number (Finite 15), js ''wordbreak'' \<mapsto> String (js '' '')]"
  let ?s = "js ''hello world, again''"
  have valid: "options_pass_validation ?options"
    by (simp add: run_truncate)
  have len: "get_prop (localOptions ?options) (js ''length'') = Number (Finite 15)"
    by (simp add: run_truncate)
  have om: "get_prop (localOptions ?options) (js ''omission'') = String (js ''...'')"
    by (simp add: run_truncate)
  have exceeds: "\<not> num_le (array_length (codepoints ?s)) (Finite 15)"
    by (simp add: run_truncate)
  have room: "num_le (array_length (codepoints (js ''...''))) (Finite 15)"
    by (simp add: run_truncate)
  have plain: "\<not> truthy (get_prop (localOptions ?options) (js ''wordbreakregex''))"
    by (simp add: run_truncate)
  have run: "truncate example_engine (String ?s) ?options = Some (Inr (String (js ''hello...'')))"
    by (simp add: run_truncate)
  note claim = truncate_length_bound [OF valid len om exceeds, of example_engine]
  from claim plain obtain t where t: "truncate example_engine (String ?s) ?options = Some (Inr (String t))"
    by blast
  from claim t have "\<exists>p. String t = String (p @ js ''...'')"
    by blast
  then have suffix: "\<exists>p. t = p @ js ''...''"
    by simp
  from claim room t
  have "\<exists>u. String t = String u \<and> num_le (array_length (codepoints u)) (Finite 15) \<and>
            length (codepoints u) \<le> length (codepoints ?s)"
    by blast
  then have bound: "num_le (array_length (codepoints t)) (Finite 15) \<and>
                    length (codepoints t) \<le> length (codepoints ?s)"
    by simp
  from run t suffix bound show ?thesis by blast
qed

section \<open>The UUID functions and the failures of delegates\<close>

lemma default_base_idem: "default_base (default_base base) = default_base base"
  by (cases base) (simp_all add: default_base_def)

text \<open>
  Claim C9. \<open>encodeUuid\<close> gives what \<open>shortenUuid\<close> gives, and \<open>decodeUuid\<close> what
  \<open>unshortenUuid\<close> gives, for every value and every base: the same value returned or the
  same error thrown.
\<close>

theorem uuid_aliases:
  "encodeUuid D val base = shortenUuid D val base \<and>
   decodeUuid D val base = unshortenUuid D val base"
  unfolding encodeUuid_def decodeUuid_def shortenUuid_def unshortenUuid_def Let_def
    default_base_idem
  by simp

lemma invalid_basex_text:
  "invalid_basex =
     Error (js ''Invalid basex. Valid values: base2,base10,base16,base32,base36,base58,base62,base64,base64url'')"
  by (simp add: invalid_basex_def validBasex_def js_def)

text \<open>
  Claim C10. For a defined value \<open>unshortenUuid\<close> looks at the base only. With a base that
  is none of the nine it throws the error that lists them; with one of the nine it is
  the call of the decoder on the value as it came, whatever the value is. So an error
  of \<open>unshortenUuid\<close> that is not the decoder's own is the error of the base, and that
  is not \<^verbatim>\<open>Invalid UUID\<close>.
\<close>

theorem unshortenUuid_no_validation:
  assumes "typeof val \<noteq> js ''undefined''"
  shows "(includes_base (default_base base) \<longrightarrow>
            unshortenUuid D val base = UuidEncoder_decode D (default_base base) val) \<and>
         (\<not> includes_base (default_base base) \<longrightarrow>
            unshortenUuid D val base =
              Inl (Error (js ''Invalid basex. Valid values: base2,base10,base16,base32,base36,base58,base62,base64,base64url''))) \<and>
         (\<forall>e. unshortenUuid D val base = Inl e \<and>
               UuidEncoder_decode D (default_base base) val \<noteq> Inl e \<longrightarrow>
               e = invalid_basex \<and> e \<noteq> Error (js ''Invalid UUID''))"
  using assms
  by (auto simp: unshortenUuid_def Let_def invalid_basex_text)

text \<open>
  The theorem of C10 at an input: a value that is no encoded UUID goes to the decoder,
  whose error comes back.
\<close>

theorem unshortenUuid_no_validation_witness:
  "typeof (String (js ''not-a-uuid'')) \<noteq> js ''undefined'' \<and>
   includes_base (default_base (String (js ''base36''))) \<and>
   unshortenUuid throwing_delegates (String (js ''not-a-uuid'')) (String (js ''base36''))
     = Inl refused \<and>
   unshortenUuid throwing_delegates (String (js ''not-a-uuid'')) (String (js ''base37''))
     = Inl (Error (js ''Invalid basex. Valid values: base2,base10,base16,base32,base36,base58,base62,base64,base64url''))"
proof -
  have defined: "typeof (String (js ''not-a-uuid'')) \<noteq> js ''undefined''"
    by simp
  have base: "includes_base (default_base (String (js ''base36'')))"
    by (simp add: includes_base_def default_base_def validBasex_def)
  have other: "\<not> includes_base (default_base (String (js ''base37'')))"
    by (simp add: includes_base_def default_base_def validBasex_def)
  have decoder: "UuidEncoder_decode throwing_delegates (default_base (String (js ''base36'')))
                   (String (js ''not-a-uuid'')) = Inl refused"
    by (simp add: throwing_delegates_def)
  from unshortenUuid_no_validation [OF defined, of "String (js ''base36'')" throwing_delegates]
       unshortenUuid_no_validation [OF defined, of "String (js ''base37'')" throwing_delegates]
       defined base other decoder
  show ?thesis by simp
qed

text \<open>
  Claim C5, as amended. For a defined value:
  \<^item> \<open>parseUrl\<close> throws \<^verbatim>\<open>Invalid URL\<close> exactly when one of its delegates fails, and throws
    no other error;
  \<^item> \<open>languageInfo\<close>, for a string that the parser of tags marks invalid, throws the error
    \<^verbatim>\<open>Invalid RFC5646 Tag. Value: \<close> with the string;
  \<^item> \<open>unshortenUuid\<close> and \<open>decodeUuid\<close> catch nothing: with one of the nine bases, an
    error of the decoder is thrown on as it is.
\<close>

theorem delegate_failures:
  assumes "typeof val \<noteq> js ''undefined''"
  shows "(url_delegates_fail D val \<longleftrightarrow> parseUrl D val = Inl (Error (js ''Invalid URL''))) \<and>
         (\<forall>e. parseUrl D val = Inl e \<longrightarrow> e = Error (js ''Invalid URL'')) \<and>
         (\<forall>s tag. val = String s \<and> LanguageTag D val = Inr tag \<and> invalid tag \<longrightarrow>
            languageInfo E D val = Inl (Error (js ''Invalid RFC5646 Tag. Value: '' @ s))) \<and>
         (\<forall>e. includes_base (default_base base) \<and>
               UuidEncoder_decode D (default_base base) val = Inl e \<longrightarrow>
               unshortenUuid D val base = Inl e \<and> decodeUuid D val base = Inl e)"
  using assms
  by (auto simp: parseUrl_def url_delegates_fail_def languageInfo_def unshortenUuid_def
      decodeUuid_def default_base_idem Let_def split: sum.splits)

text \<open>
  The theorem of C5 at an input, with delegates that fail on every call and a parser of
  tags that marks every tag invalid.
\<close>

theorem delegate_failures_witness:
  "typeof (String (js ''x'')) \<noteq> js ''undefined'' \<and>
   url_delegates_fail rejecting_delegates (String (js ''x'')) \<and>
   parseUrl rejecting_delegates (String (js ''x'')) = Inl (Error (js ''Invalid URL'')) \<and>
   languageInfo example_engine rejecting_delegates (String (js ''x''))
     = Inl (Error (js ''Invalid RFC5646 Tag. Value: x'')) \<and>
   unshortenUuid rejecting_delegates (String (js ''x'')) Undefined = Inl refused \<and>
   decodeUuid rejecting_delegates (String (js ''x'')) Undefined = Inl refused"
proof -
  have defined: "typeof (String (js ''x'')) \<noteq> js ''undefined''"
    by simp
  have fails: "url_delegates_fail rejecting_delegates (String (js ''x''))"
    by (simp add: url_delegates_fail_def rejecting_delegates_def throwing_delegates_def)
  have tag: "LanguageTag rejecting_delegates (String (js ''x''))
             = Inr \<lparr>invalid = True, region = None, language = None\<rparr>"
    by (simp add: rejecting_delegates_def throwing_delegates_def)
  have base: "includes_base (default_base Undefined)"
    by (simp add: includes_base_def default_base_def validBasex_def)
  have decoder: "UuidEncoder_decode rejecting_delegates (default_base Undefined) (String (js ''x''))
                 = Inl refused"
    by (simp add: rejecting_delegates_def throwing_delegates_def)
  have message: "js ''Invalid RFC5646 Tag. Value: '' @ js ''x'' = js ''Invalid RFC5646 Tag. Value: x''"
    by (simp add: js_def)
  note claim = delegate_failures [OF defined, of rejecting_delegates example_engine Undefined]
  from claim fails
  have url: "parseUrl rejecting_delegates (String (js ''x'')) = Inl (Error (js ''Invalid URL''))"
    by blast
  from claim tag
  have "languageInfo example_engine rejecting_delegates (String (js ''x''))
        = Inl (Error (js ''Invalid RFC5646 Tag. Value: '' @ js ''x''))"
    by simp
  then have lang: "languageInfo example_engine rejecting_delegates (String (js ''x''))
        = Inl (Error (js ''Invalid RFC5646 Tag. Value: x''))"
    by (simp only: message)
  from claim base decoder
  have uuid: "unshortenUuid rejecting_delegates (String (js ''x'')) Undefined = Inl refused \<and>
              decodeUuid rejecting_delegates (String (js ''x'')) Undefined = Inl refused"
    by blast
  from defined fails url lang uuid show ?thesis by blast
qed

text \<open>
  Claim C5 as stated fails for \<open>unshortenUuid\<close> and \<open>decodeUuid\<close>, which have no \<^verbatim>\<open>catch\<close>: the
  error that the decoder throws is the error that the caller gets.
\<close>

theorem delegate_failures_counterexample:
  "UuidEncoder_decode throwing_delegates (String (js ''base36'')) (String (js ''?'')) = Inl refused \<and>
   unshortenUuid throwing_delegates (String (js ''?'')) (String (js ''base36'')) = Inl refused \<and>
   decodeUuid throwing_delegates (String (js ''?'')) (String (js ''base36'')) = Inl refused"
  by (simp add: unshortenUuid_def decodeUuid_def throwing_delegates_def Let_def default_base_def
      includes_base_def validBasex_def)

section \<open>The registered functions\<close>

lemma registered_names:
  "map name (registrations E D) =
     [js ''htmltotext'', js ''shortenUuid'', js ''unshortenUuid'', js ''encodeUuid'',
      js ''decodeUuid'', js ''truncate'', js ''languageInfo'', js ''parseUrl'', js ''parsePath'',
      js ''moment'', js ''momentDuration'', js ''mustache'', js ''unicodeToASCII'']"
  by (simp add: registrations_def)

lemma undefined_first:
  "htmltotext D Undefined a = Inr Undefined"
  "shortenUuid D Undefined a = Inr Undefined"
  "unshortenUuid D Undefined a = Inr Undefined"
  "encodeUuid D Undefined a = Inr Undefined"
  "decodeUuid D Undefined a = Inr Undefined"
  "truncate E Undefined a = Some (Inr Undefined)"
  "languageInfo E D Undefined = Inr Undefined"
  "parseUrl D Undefined = Inr Undefined"
  "parsePath D Undefined = Inr Undefined"
  "mustache D Undefined a = Inr Undefined"
  "unicodeToASCII D Undefined a = Inr Undefined"
  by (simp_all add: htmltotext_def shortenUuid_def unshortenUuid_def encodeUuid_def
      decodeUuid_def truncate_def languageInfo_def parseUrl_def parsePath_def mustache_def
      unicodeToASCII_def Let_def)

text \<open>
  Claim C2, as amended. Every registered function other than \<open>moment\<close> and
  \<open>momentDuration\<close>, called with \<^verbatim>\<open>undefined\<close> as its first argument, returns \<^verbatim>\<open>undefined\<close>
  and throws nothing. This holds for every behaviour of the delegates, also for
  delegates that throw on every call, so no delegate is called. \<open>moment\<close> and
  \<open>momentDuration\<close> are the calls of their delegates on the arguments as they come.
\<close>

theorem undefined_propagation:
  "(\<forall>r \<in> set (registrations E D).
      name r \<noteq> js ''moment'' \<and> name r \<noteq> js ''momentDuration'' \<and> arg args 0 = Undefined \<longrightarrow>
      implementation r args = Some (Inr Undefined)) \<and>
   (\<forall>r \<in> set (registrations E D).
      (name r = js ''moment'' \<longrightarrow> implementation r args = Some (momentjs D args)) \<and>
      (name r = js ''momentDuration'' \<longrightarrow> implementation r args = Some (momentjs_duration D args)))"
  by (simp add: registrations_def undefined_first moment_def momentDuration_def)

text \<open>
  The theorem of C2 at an input: \<open>truncate\<close> and \<open>parseUrl\<close> as registered, with delegates
  that throw on every call.
\<close>

theorem undefined_propagation_witness:
  "name (registrations example_engine throwing_delegates ! 5) = js ''truncate'' \<and>
   implementation (registrations example_engine throwing_delegates ! 5) [Undefined]
     = Some (Inr Undefined) \<and>
   name (registrations example_engine throwing_delegates ! 7) = js ''parseUrl'' \<and>
   implementation (registrations example_engine throwing_delegates ! 7) [Undefined]
     = Some (Inr Undefined)"
proof -
  let ?rs = "registrations example_engine throwing_delegates"
  have size: "length ?rs = 13"
    using registered_names [of example_engine throwing_delegates, THEN arg_cong, of length]
    by simp
  then have mem: "?rs ! 5 \<in> set ?rs" "?rs ! 7 \<in> set ?rs"
    by simp_all
  have names: "name (?rs ! 5) = js ''truncate''" "name (?rs ! 7) = js ''parseUrl''"
    by (simp_all add: registrations_def)
  have first: "arg [Undefined] 0 = Undefined"
    by (simp add: arg_def)
  from undefined_propagation [of example_engine throwing_delegates "[Undefined]"] mem names first
  have "implementation (?rs ! 5) [Undefined] = Some (Inr Undefined)"
       "implementation (?rs ! 7) [Undefined] = Some (Inr Undefined)"
    by auto
  with names show ?thesis by simp
qed

text \<open>
  Claim C2 as stated fails for \<open>moment\<close> and \<open>momentDuration\<close>, which are registered as they
  are and test nothing: with \<^verbatim>\<open>undefined\<close> as first argument the delegate is called, and
  under delegates that throw the call throws.
\<close>

theorem undefined_propagation_counterexample:
  "name (registrations example_engine throwing_delegates ! 9) = js ''moment'' \<and>
   implementation (registrations example_engine throwing_delegates ! 9) [Undefined]
     = Some (Inl refused) \<and>
   name (registrations example_engine throwing_delegates ! 10) = js ''momentDuration'' \<and>
   implementation (registrations example_engine throwing_delegates ! 10) [Undefined]
     = Some (Inl refused)"
  by (simp add: registrations_def moment_def momentDuration_def throwing_delegates_def)

lemma register_each_succeeds:
  assumes "\<And>r h. \<exists>h'. registerFunction r h = Inr h'"
  shows "\<exists>h'. register_each registerFunction rs h = Inr h'"
proof (induction rs arbitrary: h)
  case Nil
  show ?case by simp
next
  case (Cons r rs)
  from assms [of r h] obtain h1 where "registerFunction r h = Inr h1" ..
  with Cons [of h1] show ?case by simp
qed

lemma register_each_recording:
  "register_each (\<lambda>r h. Inr (h @ [r])) rs h = Inr (h @ rs)"
  by (induction rs arbitrary: h) simp_all

text \<open>
  Claim C3, as amended. \<open>registerWithJSONATA\<close> called with \<^verbatim>\<open>undefined\<close> and called with an
  object without \<^verbatim>\<open>registerFunction\<close> throws the same \<open>TypeError\<close> with the same message.
  Called with a host whose \<^verbatim>\<open>registerFunction\<close> does not throw, it returns. The calls it
  makes, as a recording host sees them, are thirteen, one for each of thirteen distinct
  names.
\<close>

theorem registration_guard:
  "registerWithJSONATA E D UndefinedExpression = Inl (TypeError (js ''Invalid JSONata Expression'')) \<and>
   registerWithJSONATA E D (Expression Absent h) = Inl (TypeError (js ''Invalid JSONata Expression'')) \<and>
   ((\<forall>r h1. \<exists>h2. registerFunction r h1 = Inr h2) \<longrightarrow>
      (\<exists>h'. registerWithJSONATA E D (Expression (Callable registerFunction) h) = Inr h')) \<and>
   (\<exists>bound. registerWithJSONATA E D recording_host = Inr bound \<and>
      map name bound =
        [js ''htmltotext'', js ''shortenUuid'', js ''unshortenUuid'', js ''encodeUuid'',
         js ''decodeUuid'', js ''truncate'', js ''languageInfo'', js ''parseUrl'', js ''parsePath'',
         js ''moment'', js ''momentDuration'', js ''mustache'', js ''unicodeToASCII''] \<and>
      distinct (map name bound) \<and>
      length bound = 13)"
proof -
  have "registerWithJSONATA E D recording_host = Inr (registrations E D)"
    by (simp add: registerWithJSONATA_def recording_host_def register_each_recording)
  moreover have "distinct (map name (registrations E D))"
    by (simp add: registered_names)
  moreover have "length (registrations E D) = 13"
    using registered_names [of E D, THEN arg_cong, of length] by simp
  moreover have "\<exists>h'. registerWithJSONATA E D (Expression (Callable registerFunction) h) = Inr h'"
    if "\<forall>r h1. \<exists>h2. registerFunction r h1 = Inr h2"
    using that register_each_succeeds [of registerFunction "registrations E D" h]
    by (simp add: registerWithJSONATA_def)
  ultimately show ?thesis
    using registered_names [of E D] by (simp add: registerWithJSONATA_def)
qed

text \<open>The theorem of C3 at the recording host.\<close>

theorem registration_guard_witness:
  "(\<exists>bound. registerWithJSONATA example_engine throwing_delegates recording_host = Inr bound)"
proof -
  have "\<forall>r (h1 :: registration list). \<exists>h2. Inr (h1 @ [r]) = (Inr h2 :: error + registration list)"
    by simp
  with registration_guard [of example_engine throwing_delegates "[]" "\<lambda>r h. Inr (h @ [r])"]
  show ?thesis unfolding recording_host_def by blast
qed

text \<open>
  Claim C3 as stated counts between nine and twelve functions. The source makes
  thirteen calls.
\<close>

theorem registration_guard_counterexample:
  "map_sum id length (registerWithJSONATA example_engine throwing_delegates recording_host)
     = Inr 13 \<and>
   \<not> (9 \<le> (13::nat) \<and> (13::nat) \<le> 12)"
proof -
  have "registerWithJSONATA example_engine throwing_delegates recording_host
        = Inr (registrations example_engine throwing_delegates)"
    by (simp add: registerWithJSONATA_def recording_host_def register_each_recording)
  moreover have "length (registrations example_engine throwing_delegates) = 13"
    using registered_names [of example_engine throwing_delegates, THEN arg_cong, of length]
    by simp
  ultimately show ?thesis by simp
qed

end
